theory Spec2Isabelle
  imports Complex_Main
begin

section \<open>Python values\<close>

text \<open>
  A Python \<open>str\<close> is a sequence of Unicode code points; a code point is modelled as a
  natural number, so that the unit markers U+4E07 and U+5186 and the Unicode white space
  of \<open>str.strip\<close> and of the regular expression class \<open>\s\<close> are single characters.
\<close>

type_synonym pychar = nat
type_synonym pystr = "pychar list"

definition str :: "string \<Rightarrow> pystr" where
  "str s = map of_char s"

text \<open>\<open>str.isspace\<close> on one character; the same set as the class \<open>\s\<close> of \<open>re\<close>.\<close>

definition py_isspace :: "pychar \<Rightarrow> bool" where
  "py_isspace c =
     (c \<in> {0x9, 0xA, 0xB, 0xC, 0xD, 0x1C, 0x1D, 0x1E, 0x1F, 0x20, 0x85, 0xA0, 0x1680,
            0x2000, 0x2001, 0x2002, 0x2003, 0x2004, 0x2005, 0x2006, 0x2007, 0x2008,
            0x2009, 0x200A, 0x2028, 0x2029, 0x202F, 0x205F, 0x3000})"

definition strip :: "pystr \<Rightarrow> pystr" where
  "strip s = rev (dropWhile py_isspace (rev (dropWhile py_isspace s)))"

text \<open>The operator \<open>sub in s\<close> on strings.\<close>

fun py_in :: "pystr \<Rightarrow> pystr \<Rightarrow> bool" where
  "py_in sub [] = (sub = [])"
| "py_in sub (c # cs) = (take (length sub) (c # cs) = sub \<or> py_in sub cs)"

section \<open>The Listing dataclass\<close>

record Listing =
  title :: pystr
  price_yen :: "int option"
  price_label :: pystr
  location :: pystr
  image_url :: pystr
  detail_url :: pystr
  source :: pystr

section \<open>Filtering\<close>

text \<open>
  \<open>apply_filters\<close> of \<^verbatim>\<open>scripts/fetch_cars.py\<close>. The method \<open>str.lower\<close> is the
  library's Unicode lower-casing; it is the parameter \<open>lower\<close>.
\<close>

definition apply_filters ::
  "(pystr \<Rightarrow> pystr) \<Rightarrow> Listing list \<Rightarrow> int option \<Rightarrow> pystr option \<Rightarrow> Listing list" where
  "apply_filters lower listings max_price region_keyword =
     (let filtered = listings;
          filtered = (case max_price of
                        None \<Rightarrow> filtered
                      | Some mp \<Rightarrow>
                          filter (\<lambda>item. case price_yen item of None \<Rightarrow> True | Some p \<Rightarrow> p \<le> mp)
                            filtered);
          filtered = (case region_keyword of
                        None \<Rightarrow> filtered
                      | Some kw \<Rightarrow>
                          if kw = [] then filtered
                          else (let region_kw = lower kw
                                in filter (\<lambda>item. py_in region_kw (lower (location item)))
                                     filtered))
      in filtered)"

text \<open>The two rules of the specification, as predicates on one listing.\<close>

definition price_rule :: "int option \<Rightarrow> Listing \<Rightarrow> bool" where
  "price_rule max_price item =
     (case max_price of
        None \<Rightarrow> True
      | Some mp \<Rightarrow> (case price_yen item of None \<Rightarrow> True | Some p \<Rightarrow> p \<le> mp))"

definition region_rule :: "(pystr \<Rightarrow> pystr) \<Rightarrow> pystr option \<Rightarrow> Listing \<Rightarrow> bool" where
  "region_rule lower region_keyword item =
     (case region_keyword of
        None \<Rightarrow> True
      | Some kw \<Rightarrow>
          kw = [] \<or> (\<exists>pre post. lower (location item) = pre @ lower kw @ post))"

section \<open>Deduplication\<close>

text \<open>
  A Python \<open>dict\<close> keeps its keys in insertion order, and an assignment to a key that is
  already present replaces the value where the key stands.
\<close>

fun dict_set :: "('k \<times> 'v) list \<Rightarrow> 'k \<Rightarrow> 'v \<Rightarrow> ('k \<times> 'v) list" where
  "dict_set [] k v = [(k, v)]"
| "dict_set ((k', v') # d) k v = (if k' = k then (k, v) # d else (k', v') # dict_set d k v)"

definition listing_key :: "Listing \<Rightarrow> pystr" where
  "listing_key item =
     (if detail_url item \<noteq> [] then detail_url item
      else title item @ str ''-'' @ price_label item @ str ''-'' @ location item)"

fun uniq_loop :: "(pystr \<times> Listing) list \<Rightarrow> Listing list \<Rightarrow> (pystr \<times> Listing) list" where
  "uniq_loop uniq [] = uniq"
| "uniq_loop uniq (item # listings) = uniq_loop (dict_set uniq (listing_key item) item) listings"

text \<open>Lines 186 to 191 of \<open>scrape\<close>: the loop over the listings and \<open>list(uniq.values())\<close>.\<close>

definition dedupe :: "Listing list \<Rightarrow> Listing list" where
  "dedupe listings = map snd (uniq_loop [] listings)"

text \<open>The keys of a sequence in the order in which each is seen first.\<close>

fun first_seen :: "'k list \<Rightarrow> 'k list \<Rightarrow> 'k list" where
  "first_seen seen [] = []"
| "first_seen seen (k # ks) =
     (if k \<in> set seen then first_seen seen ks else k # first_seen (seen @ [k]) ks)"

definition first_index :: "'k list \<Rightarrow> 'k \<Rightarrow> nat" where
  "first_index ks k = length (takeWhile (\<lambda>k'. k' \<noteq> k) ks)"

section \<open>Exceptions\<close>

text \<open>
  An exception is its class and the text that \<open>str\<close> gives for it. A function that can
  raise returns \<open>pyexc + 'a\<close>, with \<open>Inl\<close> for the exception. Only classes derived from
  \<open>Exception\<close> are modelled.
\<close>

datatype exc_class =
  JSONDecodeError | ValueError | OverflowError | AttributeError | RecursionError | OSError
  | UnicodeEncodeError

datatype pyexc = PyExc exc_class pystr

fun exc_str :: "pyexc \<Rightarrow> pystr" where
  "exc_str (PyExc c msg) = msg"

fun exc_class_of :: "pyexc \<Rightarrow> exc_class" where
  "exc_class_of (PyExc c msg) = c"

section \<open>Integers as text\<close>

definition is_digit :: "pychar \<Rightarrow> bool" where
  "is_digit c = (48 \<le> c \<and> c \<le> 57)"

text \<open>The integer that a string of ASCII digits denotes.\<close>

definition int_of_digits :: "pystr \<Rightarrow> int" where
  "int_of_digits ds = foldl (\<lambda>a c. 10 * a + int (c - 48)) 0 ds"

fun dec_digits :: "nat \<Rightarrow> pystr" where
  "dec_digits n = (if n < 10 then [48 + n] else dec_digits (n div 10) @ [48 + n mod 10])"

declare dec_digits.simps [simp del]

text \<open>\<open>str(n)\<close> for an integer.\<close>

definition str_int :: "int \<Rightarrow> pystr" where
  "str_int n = (if n < 0 then str ''-'' @ dec_digits (nat (- n)) else dec_digits (nat n))"

fun group_thousands :: "pystr \<Rightarrow> pystr" where
  "group_thousands ds =
     (if length ds \<le> 3 then ds
      else group_thousands (take (length ds - 3) ds) @ str '','' @ drop (length ds - 3) ds)"

declare group_thousands.simps [simp del]

text \<open>
  The interpreter limits the digits of an integer that it converts from text to
  \<open>sys.int_info.default_max_str_digits\<close>. \<open>int(s)\<close> on a string of ASCII digits raises
  \<open>ValueError\<close> beyond the limit; leading zeros count.
\<close>

definition max_str_digits :: nat where
  "max_str_digits = 4300"

definition int_limit_error :: "nat \<Rightarrow> pyexc" where
  "int_limit_error n =
     PyExc ValueError
       (str ''Exceeds the limit ('' @ str_int (int max_str_digits)
        @ str '' digits) for integer string conversion: value has '' @ str_int (int n)
        @ str '' digits; use sys.set_int_max_str_digits() to increase the limit'')"

definition int_of_text :: "pystr \<Rightarrow> pyexc + int" where
  "int_of_text ds =
     (if max_str_digits < length ds then Inl (int_limit_error (length ds))
      else Inr (int_of_digits ds))"

text \<open>The format \<open>f"{n:,}"\<close> of an integer.\<close>

definition format_commas :: "int \<Rightarrow> pystr" where
  "format_commas n =
     (if n < 0 then str ''-'' @ group_thousands (dec_digits (nat (- n)))
      else group_thousands (dec_digits (nat n)))"

section \<open>Floating point\<close>

text \<open>
  A Python \<open>float\<close> is an IEEE 754 binary64 number. A finite one is the rational it
  denotes (the two zeros are one value: no operation of this program tells them apart).
  \<open>to_double\<close> rounds a rational to the nearest double, ties to even, as the conversion
  from a decimal literal and every arithmetic operation do.
\<close>

datatype pyfloat = Finite rat | PosInf | NegInf | NaN

text \<open>\<open>int.bit_length\<close>, on a non-negative integer.\<close>

function bit_length :: "int \<Rightarrow> nat" where
  "bit_length n = (if n \<le> 0 then 0 else Suc (bit_length (n div 2)))"
  by pat_completeness auto
termination
  by (relation "measure nat") auto

declare bit_length.simps [simp del]

definition pow2 :: "int \<Rightarrow> rat" where
  "pow2 e = (if 0 \<le> e then 2 ^ nat e else 1 / 2 ^ nat (- e))"

text \<open>The exponent \<open>e\<close> with \<open>2 ^ e \<le> a < 2 ^ (e + 1)\<close>, for a positive \<open>a\<close>.\<close>

definition floor_log2 :: "rat \<Rightarrow> int" where
  "floor_log2 a =
     (if 1 \<le> a then int (bit_length \<lfloor>a\<rfloor>) - 1
      else - int (bit_length (\<lceil>1 / a\<rceil> - 1)))"

definition round_half_even :: "rat \<Rightarrow> int" where
  "round_half_even m =
     (let f = \<lfloor>m\<rfloor>; d = m - of_int f
      in if d < 1 / 2 then f
         else if 1 / 2 < d then f + 1
         else if even f then f else f + 1)"

text \<open>
  A positive rational: 53 significant bits from the exponent -1022 on, a fixed quantum
  of \<open>2 ^ -1074\<close> below (subnormal numbers), infinity from \<open>2 ^ 1024\<close> on.
\<close>

definition round_pos :: "rat \<Rightarrow> pyfloat" where
  "round_pos a =
     (let qe = max (floor_log2 a - 52) (- 1074);
          v = of_int (round_half_even (a / pow2 qe)) * pow2 qe
      in if pow2 1024 \<le> v then PosInf else Finite v)"

definition to_double :: "rat \<Rightarrow> pyfloat" where
  "to_double q =
     (if q = 0 then Finite 0
      else if 0 < q then round_pos q
      else (case round_pos (- q) of Finite v \<Rightarrow> Finite (- v) | _ \<Rightarrow> NegInf))"

text \<open>The product \<open>x * y\<close> of two floats.\<close>

fun float_mul :: "pyfloat \<Rightarrow> pyfloat \<Rightarrow> pyfloat" where
  "float_mul (Finite a) (Finite b) = to_double (a * b)"
| "float_mul NaN y = NaN"
| "float_mul x NaN = NaN"
| "float_mul (Finite a) PosInf = (if a = 0 then NaN else if 0 < a then PosInf else NegInf)"
| "float_mul (Finite a) NegInf = (if a = 0 then NaN else if 0 < a then NegInf else PosInf)"
| "float_mul PosInf (Finite b) = (if b = 0 then NaN else if 0 < b then PosInf else NegInf)"
| "float_mul NegInf (Finite b) = (if b = 0 then NaN else if 0 < b then NegInf else PosInf)"
| "float_mul PosInf PosInf = PosInf"
| "float_mul PosInf NegInf = NegInf"
| "float_mul NegInf PosInf = NegInf"
| "float_mul NegInf NegInf = PosInf"

text \<open>
  \<open>int(x)\<close> of a float truncates towards zero; it raises \<open>OverflowError\<close> on an
  infinity and \<open>ValueError\<close> on a NaN.
\<close>

fun int_of_float :: "pyfloat \<Rightarrow> pyexc + int" where
  "int_of_float (Finite q) = Inr (if 0 \<le> q then \<lfloor>q\<rfloor> else \<lceil>q\<rceil>)"
| "int_of_float NaN = Inl (PyExc ValueError (str ''cannot convert float NaN to integer''))"
| "int_of_float x = Inl (PyExc OverflowError (str ''cannot convert float infinity to integer''))"

text \<open>
  The value of a plain decimal literal: an optional sign, digits, and optionally a point
  and more digits.
\<close>

definition unsigned_decimal :: "pystr \<Rightarrow> rat option" where
  "unsigned_decimal s =
     (let ip = takeWhile is_digit s; rest = dropWhile is_digit s
      in if ip = [] then None
         else if rest = [] then Some (of_int (int_of_digits ip))
         else if hd rest = 46 \<and> tl rest \<noteq> [] \<and> list_all is_digit (tl rest)
              then Some (of_int (int_of_digits ip)
                         + of_int (int_of_digits (tl rest)) / 10 ^ length (tl rest))
         else None)"

definition plain_decimal :: "pystr \<Rightarrow> rat option" where
  "plain_decimal s =
     (case s of
        [] \<Rightarrow> None
      | c # cs \<Rightarrow>
          if c = 45 then map_option uminus (unsigned_decimal cs)
          else if c = 43 then unsigned_decimal cs
          else unsigned_decimal s)"

section \<open>JSON values\<close>

text \<open>
  What \<open>json.loads\<close> returns: \<open>None\<close>, a \<open>bool\<close>, an \<open>int\<close>, a \<open>float\<close>, a \<open>str\<close>, a
  \<open>list\<close> or a \<open>dict\<close>. A \<open>dict\<close> is the list of its items in insertion order; the keys
  of a \<open>dict\<close> are distinct.
\<close>

datatype json =
  JNull | JBool bool | JInt int | JFloat pyfloat | JStr pystr
  | JList "json list" | JDict "(pystr \<times> json) list"

text \<open>\<open>d.get(k, default)\<close>; \<open>d.get(k)\<close> is \<open>dict_get d k JNull\<close>.\<close>

definition dict_get :: "(pystr \<times> json) list \<Rightarrow> pystr \<Rightarrow> json \<Rightarrow> json" where
  "dict_get d k dflt = (case map_of d k of None \<Rightarrow> dflt | Some v \<Rightarrow> v)"

text \<open>The truth value of an object, as \<open>if\<close>, \<open>or\<close> and \<open>not\<close> take it.\<close>

fun truthy :: "json \<Rightarrow> bool" where
  "truthy JNull = False"
| "truthy (JBool b) = b"
| "truthy (JInt n) = (n \<noteq> 0)"
| "truthy (JFloat f) = (f \<noteq> Finite 0)"
| "truthy (JStr s) = (s \<noteq> [])"
| "truthy (JList xs) = (xs \<noteq> [])"
| "truthy (JDict d) = (d \<noteq> [])"

definition py_or :: "json \<Rightarrow> json \<Rightarrow> json" where
  "py_or a b = (if truthy a then a else b)"

fun is_dict :: "json \<Rightarrow> bool" where
  "is_dict (JDict d) = True"
| "is_dict v = False"

section \<open>The library\<close>

text \<open>
  The functions of the Python library that the program calls and that are taken as
  they are: the tokenizer of \<open>html.parser.HTMLParser\<close>, \<open>json.loads\<close>, \<open>float\<close> on
  text that is not a plain decimal literal, \<open>repr\<close> of floats and containers,
  \<open>urllib.parse.urljoin\<close>, \<open>str.lower\<close> and the case-insensitive comparison of \<open>re\<close>.
\<close>

datatype html_event =
  StartTag pystr "(pystr \<times> pystr option) list" | EndTag pystr | Data pystr

record Query =
  q_model :: pystr
  q_color :: pystr
  q_feature :: pystr
  q_max_price :: "int option"
  q_region :: "pystr option"

record Payload =
  generated_at :: pystr
  p_source :: pystr
  query :: Query
  error :: "pystr option"
  count :: nat
  items :: "Listing list"

record pylib =
  str_lower :: "pystr \<Rightarrow> pystr"
  re_ignorecase_eq :: "pychar \<Rightarrow> pychar \<Rightarrow> bool"
  html_events :: "pystr \<Rightarrow> html_event list"
  json_loads :: "pystr \<Rightarrow> pyexc + json"
  lib_float :: "pystr \<Rightarrow> pyfloat option"
  lib_repr :: "json \<Rightarrow> pystr"
  lib_urljoin :: "pystr \<Rightarrow> pystr \<Rightarrow> pyexc + pystr"

text \<open>\<open>float(s)\<close>: \<open>None\<close> stands for the \<open>ValueError\<close> it raises.\<close>

definition py_float :: "pylib \<Rightarrow> pystr \<Rightarrow> pyfloat option" where
  "py_float L s = (case plain_decimal s of Some q \<Rightarrow> Some (to_double q) | None \<Rightarrow> lib_float L s)"

text \<open>\<open>str(v)\<close>, which is also \<open>format(v, "")\<close>.\<close>

fun py_str :: "pylib \<Rightarrow> json \<Rightarrow> pystr" where
  "py_str L JNull = str ''None''"
| "py_str L (JBool b) = (if b then str ''True'' else str ''False'')"
| "py_str L (JInt n) = str_int n"
| "py_str L (JStr s) = s"
| "py_str L v = lib_repr L v"

text \<open>
  \<open>urljoin(base, url)\<close>: the first two lines of the library function, then the library.
\<close>

definition urljoin :: "pylib \<Rightarrow> pystr \<Rightarrow> pystr \<Rightarrow> pyexc + pystr" where
  "urljoin L base url =
     (if base = [] then Inr url else if url = [] then Inr base else lib_urljoin L base url)"

section \<open>Regular expressions\<close>

text \<open>
  The part of \<open>re\<close> that the program's four patterns use: a greedy repetition of a
  one-character class, a literal, concatenation, a greedy option and a capture group.
  \<open>rx_match\<close> lists the ways in which a pattern matches at the start of a text, in the
  order in which the backtracking matcher of \<open>re\<close> tries them; each is the rest of the
  text and the groups captured. Literals are compared with \<open>ci\<close>, which is equality
  unless the pattern is compiled with \<open>re.IGNORECASE\<close>.
\<close>

datatype rx =
  Cls "pychar \<Rightarrow> bool" nat "nat option"
  | Lit pystr
  | Cat rx rx
  | Opt rx
  | Grp string rx

type_synonym groups = "(string \<times> pystr) list"

fun rx_match ::
  "(pychar \<Rightarrow> pychar \<Rightarrow> bool) \<Rightarrow> rx \<Rightarrow> pystr \<times> groups \<Rightarrow> (pystr \<times> groups) list" where
  "rx_match ci (Cls P lo hi) (s, g) =
     (let n = length (takeWhile P s);
          m = (case hi of None \<Rightarrow> n | Some h \<Rightarrow> min n h)
      in map (\<lambda>k. (drop k s, g)) (rev [lo..<Suc m]))"
| "rx_match ci (Lit t) (s, g) =
     (if length t \<le> length s \<and> list_all2 ci t (take (length t) s)
      then [(drop (length t) s, g)] else [])"
| "rx_match ci (Cat a b) st = concat (map (rx_match ci b) (rx_match ci a st))"
| "rx_match ci (Opt a) st = rx_match ci a st @ [st]"
| "rx_match ci (Grp name a) (s, g) =
     map (\<lambda>(s', g'). (s', (name, take (length s - length s') s) # g')) (rx_match ci a (s, g))"

text \<open>\<open>match.group(name)\<close>.\<close>

definition match_group :: "groups \<Rightarrow> string \<Rightarrow> pystr" where
  "match_group g name = (case map_of g name of None \<Rightarrow> [] | Some t \<Rightarrow> t)"

text \<open>
  \<open>re.search\<close>: the first way of matching at the leftmost position that has one. The
  result is the text before the match, the groups, and the text after the match.
\<close>

fun re_search ::
  "(pychar \<Rightarrow> pychar \<Rightarrow> bool) \<Rightarrow> rx \<Rightarrow> pystr \<Rightarrow> (pystr \<times> groups \<times> pystr) option" where
  "re_search ci r [] =
     (case rx_match ci r ([], []) of [] \<Rightarrow> None | m # ms \<Rightarrow> Some ([], snd m, fst m))"
| "re_search ci r (c # cs) =
     (case rx_match ci r (c # cs, []) of
        [] \<Rightarrow> map_option (\<lambda>(pre, g, rest). (c # pre, g, rest)) (re_search ci r cs)
      | m # ms \<Rightarrow> Some ([], snd m, fst m))"

text \<open>
  \<open>re.finditer\<close> and \<open>re.sub\<close>: the successive matches that do not overlap. No pattern
  of the program matches the empty text; the scan stops at a match that consumes nothing.
\<close>

function re_finditer :: "(pychar \<Rightarrow> pychar \<Rightarrow> bool) \<Rightarrow> rx \<Rightarrow> pystr \<Rightarrow> groups list" where
  "re_finditer ci r s =
     (case re_search ci r s of
        None \<Rightarrow> []
      | Some (pre, g, rest) \<Rightarrow>
          g # (if length rest < length s then re_finditer ci r rest else []))"
  by pat_completeness auto
termination
  by (relation "measure (\<lambda>(ci, r, s). length s)") auto

declare re_finditer.simps [simp del]

function re_sub :: "(pychar \<Rightarrow> pychar \<Rightarrow> bool) \<Rightarrow> rx \<Rightarrow> pystr \<Rightarrow> pystr \<Rightarrow> pystr" where
  "re_sub ci r repl s =
     (case re_search ci r s of
        None \<Rightarrow> s
      | Some (pre, g, rest) \<Rightarrow>
          pre @ repl @ (if length rest < length s then re_sub ci r repl rest else rest))"
  by pat_completeness auto
termination
  by (relation "measure (\<lambda>(ci, r, repl, s). length s)") auto

declare re_sub.simps [simp del]

section \<open>The program\<close>

definition BASE_URL :: pystr where
  "BASE_URL = str ''https://www.carsensor.net''"

definition SEARCH_URL :: pystr where
  "SEARCH_URL = str ''https://www.carsensor.net/usedcar/freeword/''
     @ str ''Honda+N-VAN+%E3%82%BF%E3%83%BC%E3%83%9C+%E3%83%9B%E3%83%AF%E3%82%A4%E3%83%88/index.html''"

subsection \<open>JsonLdExtractor\<close>

text \<open>
  The three handlers of the class, on its three attributes. \<open>HTMLParser.feed\<close> calls
  them with the events of the markup, in order.
\<close>

record extractor =
  in_json_ld :: bool
  buf :: "pystr list"
  blocks :: "pystr list"

definition handle_starttag ::
  "pylib \<Rightarrow> extractor \<Rightarrow> pystr \<Rightarrow> (pystr \<times> pystr option) list \<Rightarrow> extractor" where
  "handle_starttag L p tag attrs =
     (let attr_map = foldl (\<lambda>d (k, v). dict_set d (str_lower L k) v) [] attrs;
          ty = (case map_of attr_map (str ''type'') of Some (Some v) \<Rightarrow> v | _ \<Rightarrow> [])
      in if str_lower L tag = str ''script'' \<and> str_lower L ty = str ''application/ld+json''
         then p\<lparr>in_json_ld := True, buf := []\<rparr>
         else p)"

definition handle_data :: "extractor \<Rightarrow> pystr \<Rightarrow> extractor" where
  "handle_data p data = (if in_json_ld p then p\<lparr>buf := buf p @ [data]\<rparr> else p)"

definition handle_endtag :: "pylib \<Rightarrow> extractor \<Rightarrow> pystr \<Rightarrow> extractor" where
  "handle_endtag L p tag =
     (if str_lower L tag = str ''script'' \<and> in_json_ld p
      then (let raw = strip (concat (buf p));
                p = (if raw \<noteq> [] then p\<lparr>blocks := blocks p @ [raw]\<rparr> else p)
            in p\<lparr>in_json_ld := False, buf := []\<rparr>)
      else p)"

fun handle_event :: "pylib \<Rightarrow> extractor \<Rightarrow> html_event \<Rightarrow> extractor" where
  "handle_event L p (StartTag tag attrs) = handle_starttag L p tag attrs"
| "handle_event L p (Data data) = handle_data p data"
| "handle_event L p (EndTag tag) = handle_endtag L p tag"

definition feed :: "pylib \<Rightarrow> pystr \<Rightarrow> extractor" where
  "feed L html =
     foldl (handle_event L) \<lparr>in_json_ld = False, buf = [], blocks = []\<rparr> (html_events L html)"

subsection \<open>normalize\_price\<close>

text \<open>The patterns \<^verbatim>\<open>([0-9]+(?:\.[0-9]+)?)\s*\<close>, U+4E07, U+5186 and \<^verbatim>\<open>([0-9]+)\s*\<close>, U+5186.\<close>

definition price_man_rx :: rx where
  "price_man_rx =
     Cat (Grp ''1'' (Cat (Cls is_digit 1 None) (Opt (Cat (Lit (str ''.'')) (Cls is_digit 1 None)))))
         (Cat (Cls py_isspace 0 None) (Lit [0x4E07, 0x5186]))"

definition price_yen_rx :: rx where
  "price_yen_rx = Cat (Grp ''1'' (Cls is_digit 1 None)) (Cat (Cls py_isspace 0 None) (Lit [0x5186]))"

definition normalize_price :: "pylib \<Rightarrow> pystr \<Rightarrow> pyexc + int option" where
  "normalize_price L text =
     (let cleaned = filter (\<lambda>c. c \<noteq> 44) text
      in case re_search (=) price_man_rx cleaned of
           Some (pre, g, rest) \<Rightarrow>
             (case py_float L (match_group g ''1'') of
                None \<Rightarrow> Inl (PyExc ValueError (str ''could not convert string to float''))
              | Some f \<Rightarrow>
                  (case int_of_float (float_mul f (Finite 10000)) of
                     Inl e \<Rightarrow> Inl e
                   | Inr n \<Rightarrow> Inr (Some n)))
         | None \<Rightarrow>
             (case re_search (=) price_yen_rx cleaned of
                Some (pre, g, rest) \<Rightarrow>
                  (case int_of_text (match_group g ''1'') of
                     Inl e \<Rightarrow> Inl e
                   | Inr n \<Rightarrow> Inr (Some n))
              | None \<Rightarrow> Inr None))"

subsection \<open>parse\_json\_ld\<close>

fun type_name :: "json \<Rightarrow> string" where
  "type_name JNull = ''NoneType''"
| "type_name (JBool b) = ''bool''"
| "type_name (JInt n) = ''int''"
| "type_name (JFloat f) = ''float''"
| "type_name (JStr s) = ''str''"
| "type_name (JList xs) = ''list''"
| "type_name (JDict d) = ''dict''"

text \<open>What \<open>v.get\<close> raises when \<open>v\<close> is not a \<open>dict\<close>.\<close>

definition no_attribute_get :: "json \<Rightarrow> pyexc" where
  "no_attribute_get v =
     PyExc AttributeError (str ([CHR 0x27] @ type_name v @ [CHR 0x27] @ '' object has no attribute ''
                                 @ [CHR 0x27] @ ''get'' @ [CHR 0x27]))"

text \<open>Lines 82 to 93: the candidates of one decoded block.\<close>

definition items_of :: "json \<Rightarrow> json list" where
  "items_of data =
     (case data of
        JDict d \<Rightarrow>
          (case map_of d (str ''itemListElement'') of
             Some (JList xs) \<Rightarrow>
               map (\<lambda>x. case x of JDict xd \<Rightarrow> dict_get xd (str ''item'') x | _ \<Rightarrow> x)
                 (filter is_dict xs)
           | _ \<Rightarrow> [data])
      | JList xs \<Rightarrow> filter is_dict xs
      | _ \<Rightarrow> [])"

text \<open>Line 107: \<open>int(float(str(price)))\<close>.\<close>

definition direct_price :: "pylib \<Rightarrow> json \<Rightarrow> pyexc + int" where
  "direct_price L price =
     (case py_float L (py_str L price) of
        None \<Rightarrow> Inl (PyExc ValueError (str ''could not convert string to float''))
      | Some f \<Rightarrow> int_of_float f)"

text \<open>Lines 105 to 109, for a price that is not \<open>None\<close>.\<close>

definition item_price :: "pylib \<Rightarrow> json \<Rightarrow> pyexc + int option" where
  "item_price L price =
     (case direct_price L price of
        Inr n \<Rightarrow> Inr (Some n)
      | Inl e \<Rightarrow>
          if exc_class_of e = ValueError then normalize_price L (py_str L price) else Inl e)"

text \<open>Lines 110 to 113.\<close>

definition item_price_label :: "pylib \<Rightarrow> json \<Rightarrow> json \<Rightarrow> int option \<Rightarrow> pystr" where
  "item_price_label L price price_currency yen =
     (case yen of
        Some n \<Rightarrow> format_commas n @ str '' '' @ [0x5186]
      | None \<Rightarrow>
          strip (py_str L price @ str '' ''
                 @ (if truthy price_currency then py_str L price_currency else [])))"

fun py_join :: "pystr \<Rightarrow> pystr list \<Rightarrow> pystr" where
  "py_join sep [] = []"
| "py_join sep [x] = x"
| "py_join sep (x # y # ys) = x @ sep @ py_join sep (y # ys)"

text \<open>Lines 115 to 117 and \<open>str(area)\<close>.\<close>

definition item_location :: "pylib \<Rightarrow> (pystr \<times> json) list \<Rightarrow> pystr" where
  "item_location L d =
     (let area = py_or (py_or (dict_get d (str ''areaServed'') JNull)
                              (dict_get d (str ''address'') JNull)) (JStr [])
      in case area of
           JDict a \<Rightarrow> py_join (str '' '') (map (py_str L) (filter truthy (map snd a)))
         | _ \<Rightarrow> py_str L area)"

text \<open>Lines 119 to 123.\<close>

definition item_image_url :: "pylib \<Rightarrow> (pystr \<times> json) list \<Rightarrow> pyexc + pystr" where
  "item_image_url L d =
     (case dict_get d (str ''image'') JNull of
        JList xs \<Rightarrow> (case xs of [] \<Rightarrow> Inr [] | x # _ \<Rightarrow> urljoin L BASE_URL (py_str L x))
      | img \<Rightarrow> urljoin L BASE_URL (py_str L (py_or img (JStr []))))"

text \<open>Line 125.\<close>

definition item_detail_url :: "pylib \<Rightarrow> (pystr \<times> json) list \<Rightarrow> pyexc + pystr" where
  "item_detail_url L d =
     urljoin L BASE_URL (py_str L (py_or (dict_get d (str ''url'') JNull) (JStr [])))"

text \<open>Line 100.\<close>

definition item_offers :: "(pystr \<times> json) list \<Rightarrow> (pystr \<times> json) list" where
  "item_offers d = (case dict_get d (str ''offers'') JNull of JDict od \<Rightarrow> od | _ \<Rightarrow> [])"

text \<open>Lines 100 to 136: the listing of a candidate with the title \<open>t\<close>.\<close>

definition item_listing :: "pylib \<Rightarrow> (pystr \<times> json) list \<Rightarrow> pystr \<Rightarrow> pyexc + Listing" where
  "item_listing L d t =
     (let offers = item_offers d;
          price = dict_get offers (str ''price'') JNull;
          price_currency = dict_get offers (str ''priceCurrency'') JNull
      in case (if price \<noteq> JNull then item_price L price else Inr None) of
           Inl e \<Rightarrow> Inl e
         | Inr yen \<Rightarrow>
             (let label = (if price \<noteq> JNull
                           then item_price_label L price price_currency yen else [])
              in case item_image_url L d of
                   Inl e \<Rightarrow> Inl e
                 | Inr img \<Rightarrow>
                     (case item_detail_url L d of
                        Inl e \<Rightarrow> Inl e
                      | Inr url \<Rightarrow>
                          Inr \<lparr>title = t, price_yen = yen, price_label = label,
                               location = item_location L d, image_url = img,
                               detail_url = url, source = str ''carsensor.net''\<rparr>)))"

text \<open>
  The body of the loop over the candidates, lines 96 to 136: an exception, \<open>None\<close> for
  \<open>continue\<close>, or the listing that is appended.
\<close>

definition process_item :: "pylib \<Rightarrow> json \<Rightarrow> pyexc + Listing option" where
  "process_item L item =
     (case item of
        JDict d \<Rightarrow>
          (let t = strip (py_str L (dict_get d (str ''name'') (JStr [])))
           in if t = [] then Inr None
              else (case item_listing L d t of Inl e \<Rightarrow> Inl e | Inr l \<Rightarrow> Inr (Some l)))
      | _ \<Rightarrow> Inl (no_attribute_get item))"

fun items_loop :: "pylib \<Rightarrow> json list \<Rightarrow> Listing list \<Rightarrow> pyexc + Listing list" where
  "items_loop L [] listings = Inr listings"
| "items_loop L (item # rest) listings =
     (case process_item L item of
        Inl e \<Rightarrow> Inl e
      | Inr None \<Rightarrow> items_loop L rest listings
      | Inr (Some l) \<Rightarrow> items_loop L rest (listings @ [l]))"

text \<open>The loop over \<open>parser.blocks\<close>, lines 76 to 136.\<close>

fun blocks_loop :: "pylib \<Rightarrow> pystr list \<Rightarrow> Listing list \<Rightarrow> pyexc + Listing list" where
  "blocks_loop L [] listings = Inr listings"
| "blocks_loop L (raw # raws) listings =
     (case json_loads L raw of
        Inl e \<Rightarrow> if exc_class_of e = JSONDecodeError then blocks_loop L raws listings else Inl e
      | Inr data \<Rightarrow>
          (case items_loop L (items_of data) listings of
             Inl e \<Rightarrow> Inl e
           | Inr listings' \<Rightarrow> blocks_loop L raws listings'))"

definition parse_json_ld :: "pylib \<Rightarrow> pystr \<Rightarrow> pyexc + Listing list" where
  "parse_json_ld L html = blocks_loop L (blocks (feed L html)) []"

subsection \<open>parse\_fallback\_html\<close>

text \<open>
  The pattern
  \<^verbatim>\<open><a[^>]+href="(?P<url>/usedcar/detail/[^\"]+)"[^>]*>(?P<title>[^<]{2,200})</a>\<close>
  and the pattern \<^verbatim>\<open>\s+\<close>.
\<close>

definition fallback_rx :: rx where
  "fallback_rx =
     Cat (Lit (str ''<a''))
    (Cat (Cls (\<lambda>c. c \<noteq> 62) 1 None)
    (Cat (Lit (str ''href='' @ [34]))
    (Cat (Grp ''url'' (Cat (Lit (str ''/usedcar/detail/'')) (Cls (\<lambda>c. c \<noteq> 34) 1 None)))
    (Cat (Lit [34])
    (Cat (Cls (\<lambda>c. c \<noteq> 62) 0 None)
    (Cat (Lit (str ''>''))
    (Cat (Grp ''title'' (Cls (\<lambda>c. c \<noteq> 60) 2 (Some 200)))
         (Lit (str ''</a>'')))))))))"

definition spaces_rx :: rx where
  "spaces_rx = Cls py_isspace 1 None"

fun fallback_loop :: "pylib \<Rightarrow> groups list \<Rightarrow> Listing list \<Rightarrow> pyexc + Listing list" where
  "fallback_loop L [] listings = Inr listings"
| "fallback_loop L (m # ms) listings =
     (let t = strip (re_sub (=) spaces_rx (str '' '') (match_group m ''title''))
      in if t = [] then fallback_loop L ms listings
         else
           (case urljoin L BASE_URL (match_group m ''url'') of
              Inl e \<Rightarrow> Inl e
            | Inr url \<Rightarrow>
                (let listings = listings @
                       [\<lparr>title = t, price_yen = None, price_label = [], location = [],
                         image_url = [], detail_url = url,
                         source = str ''carsensor.net''\<rparr>]
                 in if 60 \<le> length listings then Inr listings
                    else fallback_loop L ms listings)))"

definition parse_fallback_html :: "pylib \<Rightarrow> pystr \<Rightarrow> pyexc + Listing list" where
  "parse_fallback_html L html =
     fallback_loop L (re_finditer (re_ignorecase_eq L) fallback_rx html) []"

subsection \<open>scrape\<close>

text \<open>
  \<open>fetched\<close> is the outcome of lines 169 to 180, the request and the decoding of the
  response: the markup, or the exception raised.
\<close>

definition scrape :: "pylib \<Rightarrow> pyexc + pystr \<Rightarrow> pyexc + Listing list" where
  "scrape L fetched =
     (case fetched of
        Inl e \<Rightarrow> Inl e
      | Inr html \<Rightarrow>
          (case parse_json_ld L html of
             Inl e \<Rightarrow> Inl e
           | Inr listings \<Rightarrow>
               (case (if listings = [] then parse_fallback_html L html else Inr listings) of
                  Inl e \<Rightarrow> Inl e
                | Inr listings \<Rightarrow> Inr (dedupe listings))))"

subsection \<open>main\<close>

record Args =
  max_price :: "int option"
  region :: "pystr option"
  out :: pystr

text \<open>Lines 225 to 247: the payload. \<open>now\<close> is the time stamp of the run.\<close>

definition main_payload :: "pylib \<Rightarrow> Args \<Rightarrow> pystr \<Rightarrow> pyexc + pystr \<Rightarrow> Payload" where
  "main_payload L args now fetched =
     (let (listings, err) =
            (case scrape L fetched of
               Inr listings \<Rightarrow> (listings, None)
             | Inl exc \<Rightarrow> ([], Some (exc_str exc)));
          listings = apply_filters (str_lower L) listings (max_price args) (region args)
      in \<lparr>generated_at = now,
          p_source = SEARCH_URL,
          query = \<lparr>q_model = str ''Honda N-VAN'', q_color = str ''white'',
                    q_feature = str ''turbo'', q_max_price = max_price args,
                    q_region = region args\<rparr>,
          error = err,
          count = length listings,
          items = listings\<rparr>)"

section \<open>The output document\<close>

text \<open>
  \<open>json.dumps(payload, ensure_ascii=False, indent=2)\<close>: the payload is a \<open>dict\<close> of
  strings, integers, \<open>None\<close>, one nested \<open>dict\<close> and a list of the \<open>dict\<close>s that \<open>asdict\<close>
  makes of the listings. A string stands between quotation marks; the quotation mark,
  the backslash and the characters below U+0020 are escaped, every other character,
  also a surrogate, stands for itself. With an indent, every member and every element
  is on a line of its own.
\<close>

definition hex_digit :: "nat \<Rightarrow> pychar" where
  "hex_digit d = (if d < 10 then 48 + d else 87 + d)"

definition hex4 :: "nat \<Rightarrow> pystr" where
  "hex4 c = map hex_digit [c div 4096 mod 16, c div 256 mod 16, c div 16 mod 16, c mod 16]"

definition json_escape :: "pychar \<Rightarrow> pystr" where
  "json_escape c =
     (if c = 0x22 then [0x5C, 0x22]
      else if c = 0x5C then [0x5C, 0x5C]
      else if c = 0x0A then [0x5C, 0x6E]
      else if c = 0x0D then [0x5C, 0x72]
      else if c = 0x09 then [0x5C, 0x74]
      else if c = 0x08 then [0x5C, 0x62]
      else if c = 0x0C then [0x5C, 0x66]
      else if c < 0x20 then [0x5C, 0x75] @ hex4 c
      else [c])"

definition json_string :: "pystr \<Rightarrow> pystr" where
  "json_string s = [0x22] @ concat (map json_escape s) @ [0x22]"

definition json_opt_string :: "pystr option \<Rightarrow> pystr" where
  "json_opt_string v = (case v of None \<Rightarrow> str ''null'' | Some s \<Rightarrow> json_string s)"

definition json_opt_int :: "int option \<Rightarrow> pystr" where
  "json_opt_int v = (case v of None \<Rightarrow> str ''null'' | Some n \<Rightarrow> str_int n)"

text \<open>A line feed and the indent of a nesting level.\<close>

definition json_indent :: "nat \<Rightarrow> pystr" where
  "json_indent level = 0x0A # replicate (2 * level) 0x20"

definition json_member :: "string \<Rightarrow> pystr \<Rightarrow> pystr" where
  "json_member k v = json_string (str k) @ str '': '' @ v"

definition json_object :: "nat \<Rightarrow> pystr list \<Rightarrow> pystr" where
  "json_object level members =
     (if members = [] then str ''{}''
      else str ''{'' @ json_indent (Suc level)
           @ py_join (str '','' @ json_indent (Suc level)) members
           @ json_indent level @ str ''}'')"

definition json_array :: "nat \<Rightarrow> pystr list \<Rightarrow> pystr" where
  "json_array level elements =
     (if elements = [] then str ''[]''
      else str ''['' @ json_indent (Suc level)
           @ py_join (str '','' @ json_indent (Suc level)) elements
           @ json_indent level @ str '']'')"

text \<open>\<open>asdict(item)\<close>, as an element of the list at the given level.\<close>

definition json_listing :: "nat \<Rightarrow> Listing \<Rightarrow> pystr" where
  "json_listing level l =
     json_object level
       [json_member ''title'' (json_string (title l)),
        json_member ''price_yen'' (json_opt_int (price_yen l)),
        json_member ''price_label'' (json_string (price_label l)),
        json_member ''location'' (json_string (location l)),
        json_member ''image_url'' (json_string (image_url l)),
        json_member ''detail_url'' (json_string (detail_url l)),
        json_member ''source'' (json_string (source l))]"

definition json_query :: "nat \<Rightarrow> Query \<Rightarrow> pystr" where
  "json_query level q =
     json_object level
       [json_member ''model'' (json_string (q_model q)),
        json_member ''color'' (json_string (q_color q)),
        json_member ''feature'' (json_string (q_feature q)),
        json_member ''max_price'' (json_opt_int (q_max_price q)),
        json_member ''region'' (json_opt_string (q_region q))]"

definition json_dumps :: "Payload \<Rightarrow> pystr" where
  "json_dumps p =
     json_object 0
       [json_member ''generated_at'' (json_string (generated_at p)),
        json_member ''source'' (json_string (p_source p)),
        json_member ''query'' (json_query 1 (query p)),
        json_member ''error'' (json_opt_string (error p)),
        json_member ''count'' (str_int (int (count p))),
        json_member ''items'' (json_array 1 (map (json_listing 2) (items p)))]"

section \<open>Writing the output\<close>

text \<open>
  The encoding of a text as UTF-8 raises \<open>UnicodeEncodeError\<close> at the first surrogate,
  U+D800 to U+DFFF: the message names the character, or the positions of the first
  and the last of the surrogates that stand together there.
\<close>

definition is_surrogate :: "pychar \<Rightarrow> bool" where
  "is_surrogate c = (0xD800 \<le> c \<and> c \<le> 0xDFFF)"

definition has_surrogate :: "pystr \<Rightarrow> bool" where
  "has_surrogate s = (\<not> list_all (\<lambda>c. \<not> is_surrogate c) s)"

definition utf8_error :: "pystr \<Rightarrow> pyexc option" where
  "utf8_error s =
     (let pre = takeWhile (\<lambda>c. \<not> is_surrogate c) s;
          run = takeWhile is_surrogate (dropWhile (\<lambda>c. \<not> is_surrogate c) s);
          i = int (length pre)
      in if run = [] then None
         else Some (PyExc UnicodeEncodeError
                (0x27 # str ''utf-8'' @ 0x27 # str '' codec can'' @ 0x27 # str ''t encode ''
                 @ (if length run = 1
                    then str ''character '' @ [0x27, 0x5C, 0x75] @ hex4 (hd run) @ 0x27
                         # str '' in position '' @ str_int i
                    else str ''characters in position '' @ str_int i @ str ''-''
                         @ str_int (i + int (length run) - 1))
                 @ str '': surrogates not allowed'')))"

text \<open>
  The operating system, as the program meets it: the outcome of
  \<open>args.out.parent.mkdir(parents=True, exist_ok=True)\<close> for an output path, of opening
  the path for writing, and of writing a text to the open file and closing it.
  \<open>None\<close> is success; a failed write leaves some text in the file.
\<close>

record pyos =
  os_mkdir :: "pystr \<Rightarrow> pyexc option"
  os_open :: "pystr \<Rightarrow> pyexc option"
  os_write :: "pystr \<Rightarrow> pystr \<Rightarrow> (pyexc \<times> pystr) option"

text \<open>
  The files are a map from paths to their text. \<open>Path.write_text(data, encoding="utf-8")\<close>
  opens the file, which empties it, encodes the text, writes it and closes the file.
  The result is the exception raised, if any, and the files.
\<close>

type_synonym files = "pystr \<rightharpoonup> pystr"

definition write_text :: "pyos \<Rightarrow> pystr \<Rightarrow> pystr \<Rightarrow> files \<Rightarrow> pyexc option \<times> files" where
  "write_text S path data files =
     (case os_open S path of
        Some e \<Rightarrow> (Some e, files)
      | None \<Rightarrow>
          (case utf8_error data of
             Some e \<Rightarrow> (Some e, files(path \<mapsto> []))
           | None \<Rightarrow>
               (case os_write S path data of
                  Some (e, left) \<Rightarrow> (Some e, files(path \<mapsto> left))
                | None \<Rightarrow> (None, files(path \<mapsto> data)))))"

text \<open>
  \<open>main\<close>: the payload, then lines 249 and 250, which stand outside the \<open>try\<close>. The
  result is the exception that \<open>main\<close> raises, if any, and the files.
\<close>

definition main ::
  "pylib \<Rightarrow> pyos \<Rightarrow> Args \<Rightarrow> pystr \<Rightarrow> pyexc + pystr \<Rightarrow> files \<Rightarrow> pyexc option \<times> files" where
  "main L S args now fetched files =
     (let payload = main_payload L args now fetched
      in case os_mkdir S (out args) of
           Some e \<Rightarrow> (Some e, files)
         | None \<Rightarrow> write_text S (out args) (json_dumps payload) files)"

section \<open>Where a listing comes from\<close>

text \<open>
  A candidate of the structured path is an element of \<open>items_of\<close> of a block that
  \<open>json.loads\<close> decodes.
\<close>

definition candidate :: "pylib \<Rightarrow> pystr list \<Rightarrow> json \<Rightarrow> bool" where
  "candidate L raws item =
     (\<exists>raw data. raw \<in> set raws \<and> json_loads L raw = Inr data \<and> item \<in> set (items_of data))"

text \<open>The listing that the fallback path makes of one match of its pattern.\<close>

definition fallback_listing :: "pylib \<Rightarrow> groups \<Rightarrow> Listing \<Rightarrow> bool" where
  "fallback_listing L m l =
     (title l = strip (re_sub (=) spaces_rx (str '' '') (match_group m ''title''))
      \<and> urljoin L BASE_URL (match_group m ''url'') = Inr (detail_url l)
      \<and> price_yen l = None \<and> price_label l = [] \<and> location l = [] \<and> image_url l = []
      \<and> source l = str ''carsensor.net'')"

section \<open>What a pattern matches\<close>

text \<open>
  The texts that a pattern matches as a whole, whatever the order in which the matcher
  tries them.
\<close>

fun rx_lang :: "(pychar \<Rightarrow> pychar \<Rightarrow> bool) \<Rightarrow> rx \<Rightarrow> pystr \<Rightarrow> bool" where
  "rx_lang ci (Cls P lo hi) w =
     (list_all P w \<and> lo \<le> length w \<and> (case hi of None \<Rightarrow> True | Some h \<Rightarrow> length w \<le> h))"
| "rx_lang ci (Lit t) w = list_all2 ci t w"
| "rx_lang ci (Cat a b) w = (\<exists>u v. w = u @ v \<and> rx_lang ci a u \<and> rx_lang ci b v)"
| "rx_lang ci (Opt a) w = (w = [] \<or> rx_lang ci a w)"
| "rx_lang ci (Grp name a) w = rx_lang ci a w"

fun group_free :: "rx \<Rightarrow> bool" where
  "group_free (Cls P lo hi) = True"
| "group_free (Lit t) = True"
| "group_free (Cat a b) = (group_free a \<and> group_free b)"
| "group_free (Opt a) = group_free a"
| "group_free (Grp name a) = False"

text \<open>
  A numeral, integer or decimal: ASCII digits, and optionally a point and more digits.
  An integer numeral: ASCII digits. A unit: white space, possibly none, and the marker.
\<close>

definition is_digits :: "pystr \<Rightarrow> bool" where
  "is_digits ds = (ds \<noteq> [] \<and> list_all is_digit ds)"

definition is_numeral :: "pystr \<Rightarrow> bool" where
  "is_numeral d = (is_digits d \<or> (\<exists>ip fp. d = ip @ [46] @ fp \<and> is_digits ip \<and> is_digits fp))"

definition is_unit :: "pystr \<Rightarrow> pystr \<Rightarrow> bool" where
  "is_unit marker v = (\<exists>ws. v = ws @ marker \<and> list_all py_isspace ws)"

text \<open>The value of a numeral.\<close>

definition numeral_value :: "pystr \<Rightarrow> rat" where
  "numeral_value d =
     (let ip = takeWhile is_digit d; fp = drop (Suc (length ip)) d
      in of_int (int_of_digits ip) + of_int (int_of_digits fp) / 10 ^ length fp)"

text \<open>
  In the text \<open>s\<close>, after the prefix \<open>pre\<close>, stands \<open>d\<close>, which is a numeral in the sense
  of \<open>num\<close>, followed by a unit with the marker. The first such place is the leftmost.
\<close>

definition matches_at :: "(pystr \<Rightarrow> bool) \<Rightarrow> pystr \<Rightarrow> pystr \<Rightarrow> pystr \<Rightarrow> pystr \<Rightarrow> bool" where
  "matches_at num marker s pre d =
     (num d \<and> (\<exists>v post. s = pre @ d @ v @ post \<and> is_unit marker v))"

definition first_match :: "(pystr \<Rightarrow> bool) \<Rightarrow> pystr \<Rightarrow> pystr \<Rightarrow> pystr \<Rightarrow> pystr \<Rightarrow> bool" where
  "first_match num marker s pre d =
     (matches_at num marker s pre d
      \<and> (\<forall>pre' d'. matches_at num marker s pre' d' \<longrightarrow> length pre \<le> length pre'))"

definition no_match :: "(pystr \<Rightarrow> bool) \<Rightarrow> pystr \<Rightarrow> pystr \<Rightarrow> bool" where
  "no_match num marker s = (\<forall>pre d. \<not> matches_at num marker s pre d)"

text \<open>The two markers: U+4E07 U+5186 (ten thousand yen) and U+5186 (yen).\<close>

definition unit_man_yen :: pystr where
  "unit_man_yen = [0x4E07, 0x5186]"

definition unit_yen :: pystr where
  "unit_yen = [0x5186]"

text \<open>
  The price as the specification states it: the numeral stands immediately before the
  marker of ten thousand yen, and the product is exact.
\<close>

definition stated_man_rx :: rx where
  "stated_man_rx =
     Cat (Grp ''1'' (Cat (Cls is_digit 1 None) (Opt (Cat (Lit (str ''.'')) (Cls is_digit 1 None)))))
         (Lit [0x4E07, 0x5186])"

definition stated_price :: "pystr \<Rightarrow> int option" where
  "stated_price text =
     (let cleaned = filter (\<lambda>c. c \<noteq> 44) text
      in case re_search (=) stated_man_rx cleaned of
           Some (pre, g, rest) \<Rightarrow> Some \<lfloor>numeral_value (match_group g ''1'') * 10000\<rfloor>
         | None \<Rightarrow>
             (case re_search (=) price_yen_rx cleaned of
                Some (pre, g, rest) \<Rightarrow> Some (int_of_digits (match_group g ''1''))
              | None \<Rightarrow> None))"

section \<open>Example values\<close>

text \<open>A listing with a title, a location and a detail URL, and nothing else.\<close>

definition ex_listing :: "string \<Rightarrow> string \<Rightarrow> string \<Rightarrow> Listing" where
  "ex_listing t loc u =
     \<lparr>title = str t, price_yen = None, price_label = [], location = str loc,
      image_url = [], detail_url = str u, source = str ''carsensor.net''\<rparr>"

text \<open>
  Four pages, and what the library makes of them: the events of the tokenizer and the
  values of \<open>json.loads\<close>. \<open>ex_lib\<close> is the library on these pages and on ASCII text.
\<close>

definition page_listing :: pystr where
  "page_listing = str ''<script type=application/ld+json>{\"itemListElement\":[{\"item\":{\"name\":\"Honda N-VAN\",\"url\":\"/usedcar/detail/1\"}}]}</script>''"

definition page_item_text :: pystr where
  "page_item_text = str ''<script type=application/ld+json>{\"itemListElement\":[{\"item\":\"x\"}]}</script>''"

definition page_negative_price :: pystr where
  "page_negative_price = str ''<script type=application/ld+json>{\"name\":\"Honda N-VAN\",\"offers\":{\"price\":-5}}</script>''"

definition page_anchor :: pystr where
  "page_anchor = str ''<a class=x href=\"/usedcar/detail/1\">Honda  N-VAN</a>''"

definition ex_script :: "string \<Rightarrow> html_event list" where
  "ex_script raw =
     [StartTag (str ''script'') [(str ''type'', Some (str ''application/ld+json''))],
      Data (str raw), EndTag (str ''script'')]"

definition ex_html_events :: "pystr \<Rightarrow> html_event list" where
  "ex_html_events html =
     (if html = page_listing
      then ex_script ''{\"itemListElement\":[{\"item\":{\"name\":\"Honda N-VAN\",\"url\":\"/usedcar/detail/1\"}}]}''
      else if html = page_item_text
      then ex_script ''{\"itemListElement\":[{\"item\":\"x\"}]}''
      else if html = page_negative_price
      then ex_script ''{\"name\":\"Honda N-VAN\",\"offers\":{\"price\":-5}}''
      else if html = page_anchor
      then [StartTag (str ''a'') [(str ''class'', Some (str ''x'')),
                                   (str ''href'', Some (str ''/usedcar/detail/1''))],
            Data (str ''Honda  N-VAN''), EndTag (str ''a'')]
      else [])"

definition ex_json_loads :: "pystr \<Rightarrow> pyexc + json" where
  "ex_json_loads raw =
     (if raw = str ''{\"itemListElement\":[{\"item\":{\"name\":\"Honda N-VAN\",\"url\":\"/usedcar/detail/1\"}}]}''
      then Inr (JDict [(str ''itemListElement'',
                        JList [JDict [(str ''item'',
                                       JDict [(str ''name'', JStr (str ''Honda N-VAN'')),
                                              (str ''url'', JStr (str ''/usedcar/detail/1''))])]])])
      else if raw = str ''{\"itemListElement\":[{\"item\":\"x\"}]}''
      then Inr (JDict [(str ''itemListElement'', JList [JDict [(str ''item'', JStr (str ''x''))]])])
      else if raw = str ''{\"name\":\"Honda N-VAN\",\"offers\":{\"price\":-5}}''
      then Inr (JDict [(str ''name'', JStr (str ''Honda N-VAN'')),
                       (str ''offers'', JDict [(str ''price'', JInt (- 5))])])
      else Inl (PyExc JSONDecodeError (str ''Expecting value'')))"

definition ascii_lower :: "pystr \<Rightarrow> pystr" where
  "ascii_lower s = map (\<lambda>c. if 65 \<le> c \<and> c \<le> 90 then c + 32 else c) s"

definition ex_lib :: pylib where
  "ex_lib =
     \<lparr>str_lower = ascii_lower,
      re_ignorecase_eq = (\<lambda>a b. ascii_lower [a] = ascii_lower [b]),
      html_events = ex_html_events,
      json_loads = ex_json_loads,
      lib_float = (\<lambda>s. None),
      lib_repr = (\<lambda>v. []),
      lib_urljoin = (\<lambda>base url. Inr (base @ url))\<rparr>"

definition ex_args :: Args where
  "ex_args = \<lparr>max_price = Some 1000000, region = None, out = str ''data/listings.json''\<rparr>"

text \<open>An operating system on which every call succeeds.\<close>

definition ex_os :: pyos where
  "ex_os = \<lparr>os_mkdir = (\<lambda>path. None), os_open = (\<lambda>path. None),
            os_write = (\<lambda>path data. None)\<rparr>"

text \<open>
  A page whose candidate has the URL \<^verbatim>\<open>"//\ud800\u2100/"\<close>, in the escapes of JSON: two
  slashes, the surrogate U+D800, the character U+2100 and a slash. \<open>urljoin\<close> raises
  \<open>ValueError\<close> on it, because U+2100 in the host is U+0061 U+002F U+0063 after the
  normalisation, and the message quotes the host. \<open>ex_lib_host\<close> is the library on
  this page.
\<close>

definition raw_surrogate_url :: pystr where
  "raw_surrogate_url =
     str ''{\"name\":\"x\",\"url\":\"//'' @ [0x5C] @ str ''ud800'' @ [0x5C] @ str ''u2100/\"}''"

definition page_surrogate_url :: pystr where
  "page_surrogate_url =
     str ''<script type=application/ld+json>'' @ raw_surrogate_url @ str ''</script>''"

definition url_surrogate :: pystr where
  "url_surrogate = [0x2F, 0x2F, 0xD800, 0x2100, 0x2F]"

definition netloc_error :: pyexc where
  "netloc_error =
     PyExc ValueError
       (str ''netloc '' @ [0x27, 0xD800, 0x2100, 0x27]
        @ str '' contains invalid characters under NFKC normalization'')"

definition ex_lib_host :: pylib where
  "ex_lib_host =
     ex_lib
       \<lparr>html_events :=
          (\<lambda>html. if html = page_surrogate_url
                   then [StartTag (str ''script'') [(str ''type'', Some (str ''application/ld+json''))],
                         Data raw_surrogate_url, EndTag (str ''script'')]
                   else []),
        json_loads :=
          (\<lambda>raw. if raw = raw_surrogate_url
                  then Inr (JDict [(str ''name'', JStr (str ''x'')), (str ''url'', JStr url_surrogate)])
                  else Inl (PyExc JSONDecodeError (str ''Expecting value''))),
        lib_urljoin :=
          (\<lambda>base url. if url = url_surrogate then Inl netloc_error else Inr (base @ url))\<rparr>"

definition ex_now :: pystr where
  "ex_now = str ''2024-01-01T00:00:00+00:00''"

section \<open>Properties of the filter\<close>

lemma py_in_iff: "py_in sub s \<longleftrightarrow> (\<exists>pre post. s = pre @ sub @ post)"
proof (induction s)
  case Nil
  then show ?case by auto
next
  case (Cons c cs)
  show ?case
  proof
    assume "py_in sub (c # cs)"
    then consider "take (length sub) (c # cs) = sub" | "py_in sub cs" by auto
    then show "\<exists>pre post. c # cs = pre @ sub @ post"
    proof cases
      case 1
      then have "c # cs = [] @ sub @ drop (length sub) (c # cs)"
        by (metis append_Nil append_take_drop_id)
      then show ?thesis by blast
    next
      case 2
      then obtain pre post where "cs = pre @ sub @ post" using Cons.IH by blast
      then have "c # cs = (c # pre) @ sub @ post" by simp
      then show ?thesis by blast
    qed
  next
    assume "\<exists>pre post. c # cs = pre @ sub @ post"
    then obtain pre post where eq: "c # cs = pre @ sub @ post" by blast
    show "py_in sub (c # cs)"
    proof (cases pre)
      case Nil
      then have "take (length sub) (c # cs) = sub" using eq by simp
      then show ?thesis by simp
    next
      case (Cons p pre')
      then have "cs = pre' @ sub @ post" using eq by simp
      then have "py_in sub cs" using Cons.IH by blast
      then show ?thesis by simp
    qed
  qed
qed

lemma apply_filters_filter:
  "apply_filters lower ls m r = filter (\<lambda>x. price_rule m x \<and> region_rule lower r x) ls"
  by (cases m; cases r)
     (auto simp: apply_filters_def price_rule_def region_rule_def py_in_iff Let_def
           intro: filter_cong)

text \<open>
  C6: \<open>apply_filters\<close> keeps, in their order, exactly the listings that pass the price
  rule (no threshold, or price absent, or price at most the threshold) and the region
  rule (no keyword, or the empty keyword, or the lower-cased keyword a substring of the
  lower-cased location); without a threshold and with no or the empty keyword it keeps
  every listing; and the two filters compose, the price filter first.
\<close>

theorem apply_filters_spec:
  "apply_filters lower ls m r = filter (\<lambda>x. price_rule m x \<and> region_rule lower r x) ls
   \<and> apply_filters lower ls None None = ls
   \<and> apply_filters lower ls None (Some []) = ls
   \<and> apply_filters lower ls m r = apply_filters lower (apply_filters lower ls m None) None r"
proof -
  have a: "apply_filters lower ls None None = ls"
    by (simp add: apply_filters_def)
  have b: "apply_filters lower ls None (Some []) = ls"
    by (simp add: apply_filters_def)
  have c: "apply_filters lower ls m r = apply_filters lower (apply_filters lower ls m None) None r"
    by (simp add: apply_filters_filter price_rule_def region_rule_def conj_commute)
  show ?thesis using a b c apply_filters_filter by blast
qed

text \<open>
  C9: filtering an already filtered list again, with the same threshold and keyword,
  changes nothing.
\<close>

theorem apply_filters_idempotent:
  "apply_filters lower (apply_filters lower l m r) m r = apply_filters lower l m r"
  by (simp add: apply_filters_filter)

section \<open>Properties of the deduplication\<close>

lemma map_fst_dict_set:
  "map fst (dict_set d k v) = (if k \<in> set (map fst d) then map fst d else map fst d @ [k])"
  by (induction d k v rule: dict_set.induct) auto

lemma map_of_dict_set: "map_of (dict_set d k v) = (map_of d)(k \<mapsto> v)"
  by (induction d k v rule: dict_set.induct) (auto simp: fun_eq_iff)

lemma keys_uniq_loop:
  "map fst (uniq_loop d xs) = map fst d @ first_seen (map fst d) (map listing_key xs)"
  by (induction d xs rule: uniq_loop.induct) (auto simp: map_fst_dict_set)

lemma distinct_dict_set: "distinct (map fst d) \<Longrightarrow> distinct (map fst (dict_set d k v))"
  by (simp add: map_fst_dict_set)

lemma distinct_uniq_loop: "distinct (map fst d) \<Longrightarrow> distinct (map fst (uniq_loop d xs))"
  by (induction d xs rule: uniq_loop.induct) (auto simp: distinct_dict_set simp del: dict_set.simps)

lemma map_of_uniq_loop:
  "map_of (uniq_loop d xs) k =
     (if k \<in> set (map listing_key xs) then Some (last (filter (\<lambda>x. listing_key x = k) xs))
      else map_of d k)"
proof (induction d xs rule: uniq_loop.induct)
  case (1 uniq)
  then show ?case by simp
next
  case (2 uniq item listings)
  then show ?case
    by (auto simp: map_of_dict_set filter_empty_conv)
qed

lemma alist_by_keys:
  "distinct (map fst al) \<Longrightarrow> map snd al = map (\<lambda>k. the (map_of al k)) (map fst al)"
proof (induction al)
  case Nil
  then show ?case by simp
next
  case (Cons p al)
  obtain k v where p: "p = (k, v)" by (cases p)
  have "map (\<lambda>k'. the (map_of (p # al) k')) (map fst al) = map (\<lambda>k'. the (map_of al k')) (map fst al)"
    using Cons.prems p by (intro map_cong) auto
  then show ?case using Cons p by simp
qed

lemma set_first_seen: "set (first_seen seen ks) = set ks - set seen"
  by (induction seen ks rule: first_seen.induct) auto

lemma distinct_first_seen: "distinct (first_seen seen ks)"
  by (induction seen ks rule: first_seen.induct) (auto simp: set_first_seen)

lemma dedupe_eq:
  "dedupe xs = map (\<lambda>k. last (filter (\<lambda>x. listing_key x = k) xs)) (first_seen [] (map listing_key xs))"
proof -
  let ?al = "uniq_loop [] xs"
  have d: "distinct (map fst ?al)" by (rule distinct_uniq_loop) simp
  have k: "map fst ?al = first_seen [] (map listing_key xs)"
    using keys_uniq_loop [of "[]" xs] by simp
  have "map snd ?al = map (\<lambda>k. the (map_of ?al k)) (map fst ?al)"
    using d by (rule alist_by_keys)
  also have "\<dots> = map (\<lambda>k. last (filter (\<lambda>x. listing_key x = k) xs)) (map fst ?al)"
  proof (rule map_cong [OF refl])
    fix k assume "k \<in> set (map fst ?al)"
    then have "k \<in> set (map listing_key xs)" unfolding k by (simp add: set_first_seen)
    then show "the (map_of ?al k) = last (filter (\<lambda>x. listing_key x = k) xs)"
      by (simp add: map_of_uniq_loop)
  qed
  finally show ?thesis unfolding dedupe_def k .
qed

lemma first_index_Cons:
  "first_index (k # ks) a = (if a = k then 0 else Suc (first_index ks a))"
  by (simp add: first_index_def)

lemma first_seen_sorted:
  "sorted_wrt (\<lambda>a b. first_index ks a < first_index ks b) (first_seen seen ks)"
proof (induction ks arbitrary: seen)
  case Nil
  then show ?case by simp
next
  case (Cons k ks)
  have step: "sorted_wrt (\<lambda>a b. first_index (k # ks) a < first_index (k # ks) b) (first_seen s ks)"
    if "k \<in> set s" for s
  proof (rule sorted_wrt_mono_rel [OF _ Cons.IH [of s]])
    fix a b
    assume "a \<in> set (first_seen s ks)" "b \<in> set (first_seen s ks)"
      and "first_index ks a < first_index ks b"
    with that show "first_index (k # ks) a < first_index (k # ks) b"
      by (auto simp: set_first_seen first_index_Cons)
  qed
  show ?case
  proof (cases "k \<in> set seen")
    case True
    then show ?thesis using step [of seen] by simp
  next
    case False
    have "\<forall>b \<in> set (first_seen (seen @ [k]) ks). first_index (k # ks) k < first_index (k # ks) b"
      by (auto simp: set_first_seen first_index_Cons)
    then show ?thesis using False step [of "seen @ [k]"] by simp
  qed
qed

lemma key_last_filter:
  "k \<in> set (map listing_key xs) \<Longrightarrow> listing_key (last (filter (\<lambda>x. listing_key x = k) xs)) = k"
proof -
  assume "k \<in> set (map listing_key xs)"
  then have ne: "filter (\<lambda>x. listing_key x = k) xs \<noteq> []"
    by (auto simp: filter_empty_conv)
  then have "last (filter (\<lambda>x. listing_key x = k) xs) \<in> set (filter (\<lambda>x. listing_key x = k) xs)"
    by (rule last_in_set)
  then show ?thesis by simp
qed

lemma keys_dedupe: "map listing_key (dedupe xs) = first_seen [] (map listing_key xs)"
proof -
  have "map listing_key (dedupe xs) =
        map (\<lambda>k. listing_key (last (filter (\<lambda>x. listing_key x = k) xs))) (first_seen [] (map listing_key xs))"
    by (simp add: dedupe_eq comp_def)
  also have "\<dots> = map (\<lambda>k. k) (first_seen [] (map listing_key xs))"
    by (rule map_cong [OF refl]) (simp add: set_first_seen key_last_filter)
  finally show ?thesis by simp
qed

text \<open>
  C5: the key of a listing is its \<open>detail_url\<close> when that is not empty, and otherwise
  the composite of its title, its price label and its location, joined by hyphens.
  The output has one listing for each key, the keys stand in the order of their first
  occurrence, and each output listing is the last input listing that has its key.
\<close>

theorem dedupe_spec:
  "let key = (\<lambda>x. if detail_url x \<noteq> [] then detail_url x
                   else title x @ str ''-'' @ price_label x @ str ''-'' @ location x)
   in dedupe xs = map (\<lambda>k. last (filter (\<lambda>x. key x = k) xs)) (first_seen [] (map key xs))
      \<and> distinct (map key (dedupe xs))
      \<and> set (map key (dedupe xs)) = set (map key xs)
      \<and> sorted_wrt (\<lambda>a b. first_index (map key xs) a < first_index (map key xs) b)
            (map key (dedupe xs))
      \<and> (\<forall>y \<in> set (dedupe xs). y = last (filter (\<lambda>x. key x = key y) xs))"
proof -
  have key: "(\<lambda>x. if detail_url x \<noteq> [] then detail_url x
                  else title x @ str ''-'' @ price_label x @ str ''-'' @ location x) = listing_key"
    by (rule ext) (simp add: listing_key_def)
  have v: "\<forall>y \<in> set (dedupe xs). y = last (filter (\<lambda>x. listing_key x = listing_key y) xs)"
  proof
    fix y assume "y \<in> set (dedupe xs)"
    then obtain k where k: "k \<in> set (first_seen [] (map listing_key xs))"
      and y: "y = last (filter (\<lambda>x. listing_key x = k) xs)"
      unfolding dedupe_eq by auto
    from k have "k \<in> set (map listing_key xs)" by (simp add: set_first_seen)
    then have "listing_key y = k" unfolding y by (rule key_last_filter)
    then show "y = last (filter (\<lambda>x. listing_key x = listing_key y) xs)" using y by simp
  qed
  have "dedupe xs = map (\<lambda>k. last (filter (\<lambda>x. listing_key x = k) xs))
                      (first_seen [] (map listing_key xs))
      \<and> distinct (map listing_key (dedupe xs))
      \<and> set (map listing_key (dedupe xs)) = set (map listing_key xs)
      \<and> sorted_wrt (\<lambda>a b. first_index (map listing_key xs) a < first_index (map listing_key xs) b)
            (map listing_key (dedupe xs))
      \<and> (\<forall>y \<in> set (dedupe xs). y = last (filter (\<lambda>x. listing_key x = listing_key y) xs))"
    using v by (simp add: keys_dedupe distinct_first_seen set_first_seen first_seen_sorted dedupe_eq [symmetric])
  then show ?thesis unfolding Let_def key .
qed

text \<open>
  Five listings: two with the same \<open>detail_url\<close>, and three without one, of which the
  first and the last have the same title, price label and location.
\<close>

theorem dedupe_spec_witness:
  "dedupe [ex_listing ''a'' ''Tokyo'' ''u1'', ex_listing ''b'' [] [],
           ex_listing ''a'' ''Osaka'' ''u1'', ex_listing ''b'' ''Nagoya'' [],
           (ex_listing ''b'' [] [])\<lparr>image_url := str ''i''\<rparr>]
     = [ex_listing ''a'' ''Osaka'' ''u1'', (ex_listing ''b'' [] [])\<lparr>image_url := str ''i''\<rparr>,
        ex_listing ''b'' ''Nagoya'' []]"
  using dedupe_spec [of "[ex_listing ''a'' ''Tokyo'' ''u1'', ex_listing ''b'' [] [],
                          ex_listing ''a'' ''Osaka'' ''u1'', ex_listing ''b'' ''Nagoya'' [],
                          (ex_listing ''b'' [] [])\<lparr>image_url := str ''i''\<rparr>]"]
  by (simp add: ex_listing_def str_def Let_def)

section \<open>Properties of the loops\<close>

lemma items_loop_result:
  "items_loop L xs acc = Inr ls \<Longrightarrow>
   \<exists>new. ls = acc @ new \<and> (\<forall>l \<in> set new. \<exists>item \<in> set xs. process_item L item = Inr (Some l))"
proof (induction xs arbitrary: acc)
  case Nil
  then show ?case by simp
next
  case (Cons x xs)
  show ?case
  proof (cases "process_item L x")
    case (Inl e)
    then show ?thesis using Cons.prems by simp
  next
    case (Inr r)
    show ?thesis
    proof (cases r)
      case None
      then have "items_loop L xs acc = Inr ls" using Cons.prems Inr by simp
      from Cons.IH [OF this] show ?thesis by auto
    next
      case (Some l)
      then have "items_loop L xs (acc @ [l]) = Inr ls" using Cons.prems Inr by simp
      from Cons.IH [OF this] obtain new where
        n: "ls = (acc @ [l]) @ new"
           "\<forall>l' \<in> set new. \<exists>item \<in> set xs. process_item L item = Inr (Some l')"
        by blast
      have "ls = acc @ (l # new)" using n by simp
      moreover have "\<forall>l' \<in> set (l # new). \<exists>item \<in> set (x # xs). process_item L item = Inr (Some l')"
        using n Inr Some by auto
      ultimately show ?thesis by blast
    qed
  qed
qed

lemma candidate_Cons: "candidate L raws item \<Longrightarrow> candidate L (raw # raws) item"
  by (auto simp: candidate_def)

lemma blocks_loop_result:
  "blocks_loop L raws acc = Inr ls \<Longrightarrow>
   \<exists>new. ls = acc @ new \<and>
     (\<forall>l \<in> set new. \<exists>item. candidate L raws item \<and> process_item L item = Inr (Some l))"
proof (induction raws arbitrary: acc)
  case Nil
  then show ?case by simp
next
  case (Cons raw raws)
  show ?case
  proof (cases "json_loads L raw")
    case (Inl e)
    then have "blocks_loop L raws acc = Inr ls"
      using Cons.prems by (simp split: if_splits)
    from Cons.IH [OF this] show ?thesis by (blast intro: candidate_Cons)
  next
    case (Inr data)
    then obtain mid where m: "items_loop L (items_of data) acc = Inr mid"
      and r: "blocks_loop L raws mid = Inr ls"
      using Cons.prems by (auto split: sum.splits)
    from items_loop_result [OF m] obtain n1 where
      n1: "mid = acc @ n1"
          "\<forall>l \<in> set n1. \<exists>item \<in> set (items_of data). process_item L item = Inr (Some l)"
      by blast
    from Cons.IH [OF r] obtain n2 where
      n2: "ls = mid @ n2"
          "\<forall>l \<in> set n2. \<exists>item. candidate L raws item \<and> process_item L item = Inr (Some l)"
      by blast
    have c1: "\<forall>l \<in> set n1. \<exists>item. candidate L (raw # raws) item \<and> process_item L item = Inr (Some l)"
      using n1(2) Inr unfolding candidate_def by (metis list.set_intros(1))
    have c2: "\<forall>l \<in> set n2. \<exists>item. candidate L (raw # raws) item \<and> process_item L item = Inr (Some l)"
      using n2(2) by (blast intro: candidate_Cons)
    have "ls = acc @ (n1 @ n2)" using n1(1) n2(1) by simp
    moreover have "\<forall>l \<in> set (n1 @ n2). \<exists>item. candidate L (raw # raws) item \<and> process_item L item = Inr (Some l)"
      using c1 c2 by auto
    ultimately show ?thesis by blast
  qed
qed

lemma parse_json_ld_result:
  "parse_json_ld L html = Inr ls \<Longrightarrow> l \<in> set ls \<Longrightarrow>
   \<exists>item. candidate L (blocks (feed L html)) item \<and> process_item L item = Inr (Some l)"
  unfolding parse_json_ld_def by (drule blocks_loop_result) auto

lemma item_listing_title: "item_listing L d t = Inr l \<Longrightarrow> title l = t"
  unfolding item_listing_def by (auto simp: Let_def split: sum.splits if_splits)

lemma process_item_Some:
  "process_item L item = Inr (Some l) \<Longrightarrow>
   \<exists>d. item = JDict d \<and> title l = strip (py_str L (dict_get d (str ''name'') (JStr [])))
        \<and> title l \<noteq> [] \<and> item_listing L d (title l) = Inr l"
proof -
  assume a: "process_item L item = Inr (Some l)"
  then obtain d where d: "item = JDict d"
    unfolding process_item_def by (auto split: json.splits)
  let ?t = "strip (py_str L (dict_get d (str ''name'') (JStr [])))"
  have t: "?t \<noteq> []" and il: "item_listing L d ?t = Inr l"
    using a d unfolding process_item_def by (auto simp: Let_def split: if_splits sum.splits)
  have "title l = ?t" using il by (rule item_listing_title)
  then show ?thesis using d t il by simp
qed

lemma fallback_loop_result:
  "fallback_loop L ms acc = Inr ls \<Longrightarrow>
   \<exists>new. ls = acc @ new \<and> (length acc < 60 \<longrightarrow> length ls \<le> 60)
     \<and> (\<forall>l \<in> set new. title l \<noteq> [] \<and> (\<exists>m \<in> set ms. fallback_listing L m l))"
proof (induction ms arbitrary: acc)
  case Nil
  then show ?case by simp
next
  case (Cons m ms)
  let ?t = "strip (re_sub (=) spaces_rx (str '' '') (match_group m ''title''))"
  show ?case
  proof (cases "?t = []")
    case True
    then have "fallback_loop L ms acc = Inr ls" using Cons.prems by (simp add: Let_def)
    from Cons.IH [OF this] show ?thesis by auto
  next
    case False
    then obtain url where u: "urljoin L BASE_URL (match_group m ''url'') = Inr url"
      using Cons.prems by (auto simp: Let_def split: sum.splits)
    let ?l = "\<lparr>title = ?t, price_yen = None, price_label = [], location = [],
               image_url = [], detail_url = url, source = str ''carsensor.net''\<rparr>"
    have fl: "title ?l \<noteq> [] \<and> fallback_listing L m ?l"
      using False u by (simp add: fallback_listing_def)
    show ?thesis
    proof (cases "60 \<le> length (acc @ [?l])")
      case True
      then have "ls = acc @ [?l]" using Cons.prems False u by (simp add: Let_def)
      moreover have "length acc < 60 \<longrightarrow> length (acc @ [?l]) \<le> 60" by simp
      ultimately show ?thesis using fl by (intro exI [of _ "[?l]"]) simp
    next
      case f: False
      then have "fallback_loop L ms (acc @ [?l]) = Inr ls"
        using Cons.prems False u by (simp add: Let_def)
      from Cons.IH [OF this] obtain new where
        n: "ls = (acc @ [?l]) @ new" "length (acc @ [?l]) < 60 \<longrightarrow> length ls \<le> 60"
           "\<forall>l \<in> set new. title l \<noteq> [] \<and> (\<exists>m \<in> set ms. fallback_listing L m l)"
        by blast
      have "ls = acc @ (?l # new)" using n(1) by simp
      moreover have "length acc < 60 \<longrightarrow> length ls \<le> 60" using n(2) f by simp
      moreover have "\<forall>l \<in> set (?l # new). title l \<noteq> [] \<and> (\<exists>m' \<in> set (m # ms). fallback_listing L m' l)"
        using n(3) fl by auto
      ultimately show ?thesis by blast
    qed
  qed
qed


section \<open>The example pages\<close>

lemmas ex_eval =
  ex_lib_def ex_html_events_def ex_json_loads_def ex_script_def ascii_lower_def
  page_listing_def page_item_text_def page_negative_price_def page_anchor_def str_def

lemmas extractor_eval =
  feed_def handle_starttag_def handle_data_def handle_endtag_def strip_def py_isspace_def

lemmas item_eval =
  parse_json_ld_def items_of_def process_item_def item_listing_def item_offers_def
  item_price_def direct_price_def item_price_label_def item_location_def item_image_url_def
  item_detail_url_def dict_get_def py_or_def urljoin_def BASE_URL_def no_attribute_get_def

lemma blocks_page_listing:
  "blocks (feed ex_lib page_listing) =
     [str ''{\"itemListElement\":[{\"item\":{\"name\":\"Honda N-VAN\",\"url\":\"/usedcar/detail/1\"}}]}'']"
  by (simp add: ex_eval extractor_eval)

lemma parse_page_listing:
  "parse_json_ld ex_lib page_listing =
     Inr [\<lparr>title = str ''Honda N-VAN'', price_yen = None, price_label = [], location = [],
           image_url = str ''https://www.carsensor.net'',
           detail_url = str ''https://www.carsensor.net/usedcar/detail/1'',
           source = str ''carsensor.net''\<rparr>]"
  unfolding parse_json_ld_def blocks_page_listing
  by (simp add: ex_eval item_eval strip_def py_isspace_def)

lemma parse_page_item_text:
  "parse_json_ld ex_lib page_item_text = Inl (no_attribute_get (JStr (str ''x'')))"
  by (simp add: ex_eval extractor_eval item_eval)

section \<open>The text of the output document\<close>

lemma has_surrogate_Nil [simp]: "\<not> has_surrogate []"
  by (simp add: has_surrogate_def)

lemma has_surrogate_Cons [simp]: "has_surrogate (c # s) = (is_surrogate c \<or> has_surrogate s)"
  by (simp add: has_surrogate_def)

lemma has_surrogate_append [simp]: "has_surrogate (a @ b) = (has_surrogate a \<or> has_surrogate b)"
  by (auto simp: has_surrogate_def)

lemma has_surrogate_set: "has_surrogate s = (\<exists>c \<in> set s. is_surrogate c)"
  by (simp add: has_surrogate_def list_all_iff)

lemma has_surrogate_str [simp]: "\<not> has_surrogate (str cs)"
proof -
  have "\<not> is_surrogate (of_char c)" for c :: char
  proof -
    have "(of_char c :: nat) mod 256 = of_char c" by (rule of_char_mod_256)
    then have "(of_char c :: nat) < 256" by (metis mod_less_divisor zero_less_numeral)
    then show ?thesis unfolding is_surrogate_def by linarith
  qed
  then show ?thesis by (simp add: has_surrogate_set str_def)
qed

lemma has_surrogate_concat: "has_surrogate (concat xs) = (\<exists>x \<in> set xs. has_surrogate x)"
  by (induction xs) simp_all

lemma hex_digit_small: "d < 16 \<Longrightarrow> \<not> is_surrogate (hex_digit d)"
  by (simp add: hex_digit_def is_surrogate_def)

lemma has_surrogate_hex4 [simp]: "\<not> has_surrogate (hex4 c)"
  by (simp add: hex4_def hex_digit_small)

lemma has_surrogate_escape [simp]: "has_surrogate (json_escape c) = is_surrogate c"
  by (simp add: json_escape_def is_surrogate_def)

lemma has_surrogate_json_string [simp]: "has_surrogate (json_string s) = has_surrogate s"
proof -
  have "has_surrogate (concat (map json_escape s)) = has_surrogate s"
    by (simp add: has_surrogate_concat) (simp add: has_surrogate_set)
  then show ?thesis by (simp add: json_string_def is_surrogate_def)
qed

lemma has_surrogate_dec_digits [simp]: "\<not> has_surrogate (dec_digits n)"
proof (induction n rule: dec_digits.induct)
  case (1 n)
  show ?case
  proof (cases "n < 10")
    case True
    then show ?thesis by (subst dec_digits.simps) (simp add: is_surrogate_def)
  next
    case False
    then show ?thesis using 1 by (subst dec_digits.simps) (simp add: is_surrogate_def)
  qed
qed

lemma has_surrogate_str_int [simp]: "\<not> has_surrogate (str_int n)"
  by (simp add: str_int_def)

lemma has_surrogate_opt_int [simp]: "\<not> has_surrogate (json_opt_int v)"
  by (simp add: json_opt_int_def split: option.splits)

lemma has_surrogate_opt_string [simp]:
  "has_surrogate (json_opt_string v) = (\<exists>s. v = Some s \<and> has_surrogate s)"
  by (simp add: json_opt_string_def split: option.splits)

lemma has_surrogate_indent [simp]: "\<not> has_surrogate (json_indent level)"
  by (simp add: json_indent_def has_surrogate_set is_surrogate_def)

lemma has_surrogate_join:
  "\<not> has_surrogate sep \<Longrightarrow> has_surrogate (py_join sep xs) = (\<exists>x \<in> set xs. has_surrogate x)"
  by (induction sep xs rule: py_join.induct) auto

lemma has_surrogate_member [simp]: "has_surrogate (json_member k v) = has_surrogate v"
  by (simp add: json_member_def)

lemma has_surrogate_object:
  "has_surrogate (json_object level members) = (\<exists>m \<in> set members. has_surrogate m)"
  by (simp add: json_object_def has_surrogate_join)

lemma has_surrogate_array:
  "has_surrogate (json_array level elements) = (\<exists>m \<in> set elements. has_surrogate m)"
  by (simp add: json_array_def has_surrogate_join)

lemma has_surrogate_listing:
  "has_surrogate (json_listing level l) =
     (has_surrogate (title l) \<or> has_surrogate (price_label l) \<or> has_surrogate (location l)
      \<or> has_surrogate (image_url l) \<or> has_surrogate (detail_url l) \<or> has_surrogate (source l))"
  by (simp add: json_listing_def has_surrogate_object)

lemma has_surrogate_query:
  "has_surrogate (json_query level q) =
     (has_surrogate (q_model q) \<or> has_surrogate (q_color q) \<or> has_surrogate (q_feature q)
      \<or> (\<exists>r. q_region q = Some r \<and> has_surrogate r))"
  by (simp add: json_query_def has_surrogate_object)

text \<open>
  The document has a surrogate exactly when one of the strings of the payload has one.
\<close>

lemma has_surrogate_dumps:
  "has_surrogate (json_dumps p) =
     (has_surrogate (generated_at p) \<or> has_surrogate (p_source p)
      \<or> has_surrogate (json_query 1 (query p))
      \<or> (\<exists>e. error p = Some e \<and> has_surrogate e)
      \<or> (\<exists>l \<in> set (items p). has_surrogate (json_listing 2 l)))"
  by (simp add: json_dumps_def has_surrogate_object has_surrogate_array)

lemma utf8_error_None: "(utf8_error s = None) = (\<not> has_surrogate s)"
proof -
  let ?rest = "dropWhile (\<lambda>c. \<not> is_surrogate c) s"
  have "(takeWhile is_surrogate ?rest = []) = (?rest = [])"
  proof
    assume t: "takeWhile is_surrogate ?rest = []"
    show "?rest = []"
    proof (rule ccontr)
      assume ne: "?rest \<noteq> []"
      then have "is_surrogate (hd ?rest)" using hd_dropWhile [of "\<lambda>c. \<not> is_surrogate c" s] by simp
      then show False using t ne by (cases ?rest) simp_all
    qed
  next
    assume r: "?rest = []"
    show "takeWhile is_surrogate ?rest = []" unfolding r by simp
  qed
  also have "\<dots> = (\<not> has_surrogate s)" by (simp add: has_surrogate_set)
  finally show ?thesis by (simp add: utf8_error_def Let_def)
qed

section \<open>main\<close>

lemma scrape_fetch_raises: "scrape L (Inl e) = Inl e"
  by (simp add: scrape_def)

lemma main_payload_raises:
  assumes "scrape L fetched = Inl exc"
  shows "main_payload L args now fetched =
     \<lparr>generated_at = now, p_source = SEARCH_URL,
      query = \<lparr>q_model = str ''Honda N-VAN'', q_color = str ''white'',
                q_feature = str ''turbo'', q_max_price = max_price args,
                q_region = region args\<rparr>,
      error = Some (exc_str exc), count = 0, items = []\<rparr>"
  using assms by (simp add: main_payload_def Let_def apply_filters_filter)

lemma main_payload_returns:
  "scrape L fetched = Inr ls \<Longrightarrow> error (main_payload L args now fetched) = None"
  by (simp add: main_payload_def Let_def)

lemma main_payload_surrogate:
  assumes "scrape L fetched = Inl exc"
  shows "has_surrogate (json_dumps (main_payload L args now fetched)) =
     (has_surrogate now \<or> (\<exists>r. region args = Some r \<and> has_surrogate r)
      \<or> has_surrogate (exc_str exc))"
  unfolding main_payload_raises [OF assms]
  by (simp add: has_surrogate_dumps has_surrogate_query SEARCH_URL_def)

lemma main_writes:
  assumes "os_mkdir S (out args) = None" "os_open S (out args) = None"
    and "os_write S (out args) (json_dumps (main_payload L args now fetched)) = None"
    and "\<not> has_surrogate (json_dumps (main_payload L args now fetched))"
  shows "main L S args now fetched files
         = (None, files(out args \<mapsto> json_dumps (main_payload L args now fetched)))"
  using assms by (simp add: main_def write_text_def Let_def utf8_error_None [symmetric])

lemma main_encode_raises:
  assumes "os_mkdir S (out args) = None" "os_open S (out args) = None"
    and "utf8_error (json_dumps (main_payload L args now fetched)) = Some e"
  shows "main L S args now fetched files = (Some e, files(out args \<mapsto> []))"
  using assms by (simp add: main_def write_text_def Let_def)

text \<open>
  C2, as amended: when \<open>scrape\<close> raises, the payload has the text of the exception as
  its error, which is not null, a count of 0 and no items; and \<open>main\<close> returns and has
  written the serialised payload to the output path, provided that the directory can be
  made, the file can be opened and written, and there is no surrogate in the text of the
  exception, in the region argument and in the time stamp, so that the document can be
  encoded. When \<open>scrape\<close> returns, the error is null. An exception of the request is an
  exception of \<open>scrape\<close>.
\<close>

theorem main_error_containment:
  "(scrape L fetched = Inl exc \<longrightarrow>
      error (main_payload L args now fetched) = Some (exc_str exc)
      \<and> error (main_payload L args now fetched) \<noteq> None
      \<and> count (main_payload L args now fetched) = 0
      \<and> items (main_payload L args now fetched) = []
      \<and> (os_mkdir S (out args) = None \<and> os_open S (out args) = None
           \<and> os_write S (out args) (json_dumps (main_payload L args now fetched)) = None
           \<and> \<not> has_surrogate (exc_str exc) \<and> \<not> has_surrogate now
           \<and> (\<forall>r. region args = Some r \<longrightarrow> \<not> has_surrogate r) \<longrightarrow>
          main L S args now fetched files
            = (None, files(out args \<mapsto> json_dumps (main_payload L args now fetched)))))
   \<and> (scrape L fetched = Inr ls \<longrightarrow> error (main_payload L args now fetched) = None)
   \<and> scrape L (Inl e) = Inl e"
proof -
  have a: "error (main_payload L args now fetched) = Some (exc_str exc)
      \<and> error (main_payload L args now fetched) \<noteq> None
      \<and> count (main_payload L args now fetched) = 0
      \<and> items (main_payload L args now fetched) = []" if "scrape L fetched = Inl exc"
    by (simp add: main_payload_raises [OF that])
  have b: "main L S args now fetched files
            = (None, files(out args \<mapsto> json_dumps (main_payload L args now fetched)))"
    if "scrape L fetched = Inl exc" "os_mkdir S (out args) = None" "os_open S (out args) = None"
      "os_write S (out args) (json_dumps (main_payload L args now fetched)) = None"
      "\<not> has_surrogate (exc_str exc)" "\<not> has_surrogate now"
      "\<forall>r. region args = Some r \<longrightarrow> \<not> has_surrogate r"
  proof -
    have "\<not> has_surrogate (json_dumps (main_payload L args now fetched))"
      using that(5,6,7) by (simp add: main_payload_surrogate [OF that(1)])
    with that(2,3,4) show ?thesis by (rule main_writes)
  qed
  show ?thesis
    using a b main_payload_returns [of L fetched ls args now] scrape_fetch_raises [of L e]
    by blast
qed

lemma timed_out_payload:
  "main_payload ex_lib ex_args ex_now (Inl (PyExc OSError (str ''timed out''))) =
     \<lparr>generated_at = ex_now, p_source = SEARCH_URL,
      query = \<lparr>q_model = str ''Honda N-VAN'', q_color = str ''white'',
                q_feature = str ''turbo'', q_max_price = Some 1000000, q_region = None\<rparr>,
      error = Some (str ''timed out''), count = 0, items = []\<rparr>"
  using main_payload_raises [of ex_lib "Inl (PyExc OSError (str ''timed out''))"
      "PyExc OSError (str ''timed out'')" ex_args ex_now]
  by (simp add: scrape_fetch_raises ex_args_def)

theorem main_error_containment_witness:
  "scrape ex_lib (Inl (PyExc OSError (str ''timed out''))) = Inl (PyExc OSError (str ''timed out''))
   \<and> main ex_lib ex_os ex_args ex_now (Inl (PyExc OSError (str ''timed out''))) Map.empty
       = (None, [str ''data/listings.json'' \<mapsto>
                   json_dumps \<lparr>generated_at = ex_now, p_source = SEARCH_URL,
                     query = \<lparr>q_model = str ''Honda N-VAN'', q_color = str ''white'',
                               q_feature = str ''turbo'', q_max_price = Some 1000000,
                               q_region = None\<rparr>,
                     error = Some (str ''timed out''), count = 0, items = []\<rparr>])"
  using main_error_containment [of ex_lib "Inl (PyExc OSError (str ''timed out''))"
      "PyExc OSError (str ''timed out'')" ex_args ex_now ex_os Map.empty "[]"
      "PyExc OSError (str ''timed out'')"]
  unfolding timed_out_payload
  by (simp add: scrape_fetch_raises ex_os_def ex_args_def ex_now_def)

lemma blocks_page_surrogate_url:
  "blocks (feed ex_lib_host page_surrogate_url) = [raw_surrogate_url]"
  by (simp add: ex_lib_host_def page_surrogate_url_def ex_eval extractor_eval raw_surrogate_url_def)

lemma parse_page_surrogate_url: "parse_json_ld ex_lib_host page_surrogate_url = Inl netloc_error"
  unfolding parse_json_ld_def blocks_page_surrogate_url
  by (simp add: ex_lib_host_def ex_lib_def items_of_def process_item_def item_listing_def
      item_offers_def item_price_label_def item_location_def item_image_url_def
      item_detail_url_def dict_get_def py_or_def urljoin_def BASE_URL_def strip_def
      py_isspace_def url_surrogate_def str_def)

lemma scrape_page_surrogate_url: "scrape ex_lib_host (Inr page_surrogate_url) = Inl netloc_error"
  by (simp add: scrape_def parse_page_surrogate_url)

lemma surrogate_payload:
  "main_payload ex_lib_host ex_args ex_now (Inr page_surrogate_url) =
     \<lparr>generated_at = ex_now, p_source = SEARCH_URL,
      query = \<lparr>q_model = str ''Honda N-VAN'', q_color = str ''white'',
                q_feature = str ''turbo'', q_max_price = Some 1000000, q_region = None\<rparr>,
      error = Some (exc_str netloc_error), count = 0, items = []\<rparr>"
  using main_payload_raises [OF scrape_page_surrogate_url, of ex_args ex_now]
  by (simp add: ex_args_def)

lemma utf8_error_class: "utf8_error s = Some e \<Longrightarrow> exc_class_of e = UnicodeEncodeError"
  by (auto simp: utf8_error_def Let_def split: if_splits)

lemma surrogate_document:
  "has_surrogate (json_dumps (main_payload ex_lib_host ex_args ex_now (Inr page_surrogate_url)))"
  by (simp add: main_payload_surrogate [OF scrape_page_surrogate_url] netloc_error_def
      is_surrogate_def)

text \<open>
  C2 as stated fails: on this page \<open>scrape\<close> raises the \<open>ValueError\<close> of \<open>urljoin\<close>, whose
  text has a surrogate, every call of the operating system succeeds, and \<open>main\<close>
  raises \<open>UnicodeEncodeError\<close> and leaves the output file empty.
\<close>

theorem main_write_counterexample:
  "scrape ex_lib_host (Inr page_surrogate_url) = Inl netloc_error
   \<and> map_option exc_class_of
        (fst (main ex_lib_host ex_os ex_args ex_now (Inr page_surrogate_url) Map.empty))
       = Some UnicodeEncodeError
   \<and> snd (main ex_lib_host ex_os ex_args ex_now (Inr page_surrogate_url) Map.empty)
        (str ''data/listings.json'') = Some []"
proof -
  obtain e where e: "utf8_error (json_dumps (main_payload ex_lib_host ex_args ex_now
      (Inr page_surrogate_url))) = Some e"
    using surrogate_document utf8_error_None by fastforce
  have "main ex_lib_host ex_os ex_args ex_now (Inr page_surrogate_url) Map.empty
        = (Some e, Map.empty(out ex_args \<mapsto> []))"
    by (rule main_encode_raises [OF _ _ e]) (simp_all add: ex_os_def)
  then show ?thesis
    using utf8_error_class [OF e] by (simp add: scrape_page_surrogate_url ex_args_def)
qed

section \<open>Titles\<close>

lemma parse_json_ld_titles:
  "parse_json_ld L html = Inr ls \<Longrightarrow> l \<in> set ls \<Longrightarrow> title l \<noteq> []"
  by (drule (1) parse_json_ld_result) (auto dest: process_item_Some)

lemma parse_fallback_html_result:
  "parse_fallback_html L html = Inr fs \<Longrightarrow>
   length fs \<le> 60 \<and>
   (\<forall>l \<in> set fs. title l \<noteq> [] \<and>
      (\<exists>m \<in> set (re_finditer (re_ignorecase_eq L) fallback_rx html). fallback_listing L m l))"
  unfolding parse_fallback_html_def by (drule fallback_loop_result) auto

lemma process_item_blank:
  "strip (py_str L (dict_get d (str ''name'') (JStr []))) = [] \<Longrightarrow>
   process_item L (JDict d) = Inr None"
  by (simp add: process_item_def)

lemma fallback_loop_blank:
  "strip (re_sub (=) spaces_rx (str '' '') (match_group m ''title'')) = [] \<Longrightarrow>
   fallback_loop L (m # ms) acc = fallback_loop L ms acc"
  by simp

text \<open>
  C8: every listing of the structured path and every listing of the fallback path has a
  title that is not empty; a candidate whose name is empty after trimming is skipped,
  and so is a match whose text is empty after collapsing and trimming the white space.
\<close>

theorem titles_nonempty:
  "(parse_json_ld L html = Inr ls \<longrightarrow> (\<forall>l \<in> set ls. title l \<noteq> []))
   \<and> (parse_fallback_html L html = Inr fs \<longrightarrow> (\<forall>l \<in> set fs. title l \<noteq> []))
   \<and> (strip (py_str L (dict_get d (str ''name'') (JStr []))) = [] \<longrightarrow>
        process_item L (JDict d) = Inr None)
   \<and> (strip (re_sub (=) spaces_rx (str '' '') (match_group m ''title'')) = [] \<longrightarrow>
        fallback_loop L (m # ms) acc = fallback_loop L ms acc)"
  using parse_json_ld_titles [of L html ls] parse_fallback_html_result [of L html fs]
    process_item_blank [of L d] fallback_loop_blank [of m L ms acc]
  by blast

theorem titles_nonempty_witness:
  "parse_json_ld ex_lib page_listing =
     Inr [\<lparr>title = str ''Honda N-VAN'', price_yen = None, price_label = [], location = [],
           image_url = str ''https://www.carsensor.net'',
           detail_url = str ''https://www.carsensor.net/usedcar/detail/1'',
           source = str ''carsensor.net''\<rparr>]
   \<and> str ''Honda N-VAN'' \<noteq> []
   \<and> process_item ex_lib (JDict [(str ''name'', JStr (str ''  ''))]) = Inr None"
proof -
  have s: "strip (py_str ex_lib (dict_get [(str ''name'', JStr (str ''  ''))] (str ''name'') (JStr []))) = []"
    by (simp add: dict_get_def str_def strip_def py_isspace_def)
  show ?thesis
    using titles_nonempty [of ex_lib page_listing _ "[]" "[(str ''name'', JStr (str ''  ''))]"] s
    by (simp add: parse_page_listing str_def)
qed

section \<open>The fallback path\<close>








section \<open>URLs of the structured path\<close>

lemma BASE_URL_nonempty: "BASE_URL \<noteq> []"
  by (simp add: BASE_URL_def str_def)

lemma urljoin_empty: "urljoin L BASE_URL [] = Inr BASE_URL"
  by (simp add: urljoin_def BASE_URL_nonempty)

lemma urljoin_nonempty:
  "\<forall>u. lib_urljoin L BASE_URL u \<noteq> Inr [] \<Longrightarrow> urljoin L BASE_URL u = Inr r \<Longrightarrow> r \<noteq> []"
  by (auto simp: urljoin_def BASE_URL_nonempty split: if_splits)

lemma item_listing_urls:
  "item_listing L d t = Inr l \<Longrightarrow>
   item_image_url L d = Inr (image_url l) \<and> item_detail_url L d = Inr (detail_url l)"
  unfolding item_listing_def by (auto simp: Let_def split: sum.splits if_splits)

lemma item_detail_url_absent:
  "dict_get d (str ''url'') JNull \<in> {JNull, JStr []} \<Longrightarrow> item_detail_url L d = Inr BASE_URL"
  by (auto simp: item_detail_url_def py_or_def urljoin_empty)

lemma item_image_url_absent:
  "dict_get d (str ''image'') JNull \<in> {JNull, JStr []} \<Longrightarrow> item_image_url L d = Inr BASE_URL"
  by (auto simp: item_image_url_def py_or_def urljoin_empty)

lemma item_image_url_empty:
  "\<forall>u. lib_urljoin L BASE_URL u \<noteq> Inr [] \<Longrightarrow> item_image_url L d = Inr [] \<Longrightarrow>
   dict_get d (str ''image'') JNull = JList []"
  unfolding item_image_url_def
  by (auto split: json.splits list.splits dest: urljoin_nonempty)

lemma item_image_url_empty_list:
  "dict_get d (str ''image'') JNull = JList [] \<Longrightarrow> item_image_url L d = Inr []"
  by (simp add: item_image_url_def)

lemma item_detail_url_nonempty:
  "\<forall>u. lib_urljoin L BASE_URL u \<noteq> Inr [] \<Longrightarrow> item_detail_url L d = Inr r \<Longrightarrow> r \<noteq> []"
  unfolding item_detail_url_def by (rule urljoin_nonempty)

text \<open>
  C10: for a candidate of the structured path that yields a listing, a \<open>url\<close> or
  \<open>image\<close> field that is absent, null or the empty string gives the base origin
  \<open>https://www.carsensor.net\<close>, which is not empty, and an \<open>image\<close> field that is the
  empty list gives the empty \<open>image_url\<close>. If the library's \<open>urljoin\<close> never returns
  the empty string for this base, \<open>image_url\<close> is empty only for the empty list, and
  every listing of the structured path has a \<open>detail_url\<close> that is not empty, so that
  its deduplication key is its \<open>detail_url\<close>.
\<close>

theorem structured_urls:
  "(process_item L (JDict d) = Inr (Some l) \<longrightarrow>
      (dict_get d (str ''url'') JNull \<in> {JNull, JStr []} \<longrightarrow> detail_url l = BASE_URL)
      \<and> (dict_get d (str ''image'') JNull \<in> {JNull, JStr []} \<longrightarrow> image_url l = BASE_URL)
      \<and> (dict_get d (str ''image'') JNull = JList [] \<longrightarrow> image_url l = [])
      \<and> BASE_URL = str ''https://www.carsensor.net'' \<and> BASE_URL \<noteq> []
      \<and> ((\<forall>u. lib_urljoin L BASE_URL u \<noteq> Inr []) \<longrightarrow>
           (image_url l = [] \<longrightarrow> dict_get d (str ''image'') JNull = JList [])
           \<and> detail_url l \<noteq> [] \<and> listing_key l = detail_url l))
   \<and> (parse_json_ld L html = Inr ls \<and> (\<forall>u. lib_urljoin L BASE_URL u \<noteq> Inr []) \<longrightarrow>
        (\<forall>l' \<in> set ls. detail_url l' \<noteq> [] \<and> listing_key l' = detail_url l'))"
proof -
  have item: "(dict_get d' (str ''url'') JNull \<in> {JNull, JStr []} \<longrightarrow> detail_url k = BASE_URL)
      \<and> (dict_get d' (str ''image'') JNull \<in> {JNull, JStr []} \<longrightarrow> image_url k = BASE_URL)
      \<and> (dict_get d' (str ''image'') JNull = JList [] \<longrightarrow> image_url k = [])
      \<and> ((\<forall>u. lib_urljoin L BASE_URL u \<noteq> Inr []) \<longrightarrow>
           (image_url k = [] \<longrightarrow> dict_get d' (str ''image'') JNull = JList [])
           \<and> detail_url k \<noteq> [] \<and> listing_key k = detail_url k)"
    if p: "process_item L (JDict d') = Inr (Some k)" for d' k
  proof -
    from process_item_Some [OF p] have "item_listing L d' (title k) = Inr k" by auto
    from item_listing_urls [OF this]
    have i: "item_image_url L d' = Inr (image_url k)"
      and u: "item_detail_url L d' = Inr (detail_url k)" by auto
    have 1: "dict_get d' (str ''url'') JNull \<in> {JNull, JStr []} \<longrightarrow> detail_url k = BASE_URL"
      using item_detail_url_absent [of d' L] u by auto
    have 2: "dict_get d' (str ''image'') JNull \<in> {JNull, JStr []} \<longrightarrow> image_url k = BASE_URL"
      using item_image_url_absent [of d' L] i by auto
    have 3: "dict_get d' (str ''image'') JNull = JList [] \<longrightarrow> image_url k = []"
      using item_image_url_empty_list [of d' L] i by auto
    have 4: "(\<forall>u. lib_urljoin L BASE_URL u \<noteq> Inr []) \<longrightarrow>
           (image_url k = [] \<longrightarrow> dict_get d' (str ''image'') JNull = JList [])
           \<and> detail_url k \<noteq> [] \<and> listing_key k = detail_url k"
    proof
      assume n: "\<forall>u. lib_urljoin L BASE_URL u \<noteq> Inr []"
      have a: "image_url k = [] \<longrightarrow> dict_get d' (str ''image'') JNull = JList []"
        using item_image_url_empty [OF n, of d'] i by auto
      have b: "detail_url k \<noteq> []" using item_detail_url_nonempty [OF n u] .
      then have "listing_key k = detail_url k" by (simp add: listing_key_def)
      with a b show "(image_url k = [] \<longrightarrow> dict_get d' (str ''image'') JNull = JList [])
           \<and> detail_url k \<noteq> [] \<and> listing_key k = detail_url k" by simp
    qed
    show ?thesis using 1 2 3 4 by blast
  qed
  have parse: "parse_json_ld L html = Inr ls \<and> (\<forall>u. lib_urljoin L BASE_URL u \<noteq> Inr []) \<longrightarrow>
        (\<forall>l' \<in> set ls. detail_url l' \<noteq> [] \<and> listing_key l' = detail_url l')"
  proof (intro impI ballI)
    fix l' assume a: "parse_json_ld L html = Inr ls \<and> (\<forall>u. lib_urljoin L BASE_URL u \<noteq> Inr [])"
      and m: "l' \<in> set ls"
    from a m parse_json_ld_result [of L html ls l'] obtain it where
      "process_item L it = Inr (Some l')" by blast
    moreover from process_item_Some [OF this] obtain d' where "it = JDict d'" by blast
    ultimately have "process_item L (JDict d') = Inr (Some l')" by simp
    from item [OF this] a show "detail_url l' \<noteq> [] \<and> listing_key l' = detail_url l'" by blast
  qed
  have base: "BASE_URL = str ''https://www.carsensor.net'' \<and> BASE_URL \<noteq> []"
    using BASE_URL_nonempty by (simp add: BASE_URL_def)
  have first: "process_item L (JDict d) = Inr (Some l) \<longrightarrow>
      (dict_get d (str ''url'') JNull \<in> {JNull, JStr []} \<longrightarrow> detail_url l = BASE_URL)
      \<and> (dict_get d (str ''image'') JNull \<in> {JNull, JStr []} \<longrightarrow> image_url l = BASE_URL)
      \<and> (dict_get d (str ''image'') JNull = JList [] \<longrightarrow> image_url l = [])
      \<and> BASE_URL = str ''https://www.carsensor.net'' \<and> BASE_URL \<noteq> []
      \<and> ((\<forall>u. lib_urljoin L BASE_URL u \<noteq> Inr []) \<longrightarrow>
           (image_url l = [] \<longrightarrow> dict_get d (str ''image'') JNull = JList [])
           \<and> detail_url l \<noteq> [] \<and> listing_key l = detail_url l)"
  proof
    assume p: "process_item L (JDict d) = Inr (Some l)"
    show "(dict_get d (str ''url'') JNull \<in> {JNull, JStr []} \<longrightarrow> detail_url l = BASE_URL)
      \<and> (dict_get d (str ''image'') JNull \<in> {JNull, JStr []} \<longrightarrow> image_url l = BASE_URL)
      \<and> (dict_get d (str ''image'') JNull = JList [] \<longrightarrow> image_url l = [])
      \<and> BASE_URL = str ''https://www.carsensor.net'' \<and> BASE_URL \<noteq> []
      \<and> ((\<forall>u. lib_urljoin L BASE_URL u \<noteq> Inr []) \<longrightarrow>
           (image_url l = [] \<longrightarrow> dict_get d (str ''image'') JNull = JList [])
           \<and> detail_url l \<noteq> [] \<and> listing_key l = detail_url l)"
      using item [OF p] base by blast
  qed
  from first parse show ?thesis by (rule conjI)
qed

lemma ex_lib_urljoin_nonempty: "\<forall>u. lib_urljoin ex_lib BASE_URL u \<noteq> Inr []"
  by (simp add: ex_lib_def BASE_URL_nonempty)

lemma process_item_name_only:
  "process_item ex_lib (JDict [(str ''name'', JStr (str ''Honda N-VAN''))]) =
     Inr (Some \<lparr>title = str ''Honda N-VAN'', price_yen = None, price_label = [], location = [],
                image_url = BASE_URL, detail_url = BASE_URL, source = str ''carsensor.net''\<rparr>)"
  by (simp add: item_eval strip_def py_isspace_def str_def)

theorem structured_urls_witness:
  "process_item ex_lib (JDict [(str ''name'', JStr (str ''Honda N-VAN''))]) =
     Inr (Some \<lparr>title = str ''Honda N-VAN'', price_yen = None, price_label = [], location = [],
                image_url = BASE_URL, detail_url = BASE_URL, source = str ''carsensor.net''\<rparr>)
   \<and> BASE_URL \<noteq> []
   \<and> listing_key \<lparr>title = str ''Honda N-VAN'', price_yen = None, price_label = [], location = [],
                   image_url = BASE_URL, detail_url = BASE_URL, source = str ''carsensor.net''\<rparr>
       = BASE_URL
   \<and> parse_json_ld ex_lib page_listing =
       Inr [\<lparr>title = str ''Honda N-VAN'', price_yen = None, price_label = [], location = [],
             image_url = str ''https://www.carsensor.net'',
             detail_url = str ''https://www.carsensor.net/usedcar/detail/1'',
             source = str ''carsensor.net''\<rparr>]
   \<and> listing_key \<lparr>title = str ''Honda N-VAN'', price_yen = None, price_label = [], location = [],
             image_url = str ''https://www.carsensor.net'',
             detail_url = str ''https://www.carsensor.net/usedcar/detail/1'',
             source = str ''carsensor.net''\<rparr> = str ''https://www.carsensor.net/usedcar/detail/1''"
proof -
  let ?d = "[(str ''name'', JStr (str ''Honda N-VAN''))]"
  let ?x = "\<lparr>title = str ''Honda N-VAN'', price_yen = None, price_label = [], location = [],
             image_url = BASE_URL, detail_url = BASE_URL, source = str ''carsensor.net''\<rparr>"
  let ?y = "\<lparr>title = str ''Honda N-VAN'', price_yen = None, price_label = [], location = [],
             image_url = str ''https://www.carsensor.net'',
             detail_url = str ''https://www.carsensor.net/usedcar/detail/1'',
             source = str ''carsensor.net''\<rparr>"
  note t = structured_urls [of ex_lib ?d ?x page_listing "[?y]"]
  have p: "process_item ex_lib (JDict ?d) = Inr (Some ?x)" by (rule process_item_name_only)
  have q: "parse_json_ld ex_lib page_listing = Inr [?y]" by (rule parse_page_listing)
  from t p ex_lib_urljoin_nonempty have "listing_key ?x = detail_url ?x" by blast
  then have 1: "listing_key ?x = BASE_URL" by simp
  from t q ex_lib_urljoin_nonempty have "\<forall>l' \<in> set [?y]. listing_key l' = detail_url l'" by blast
  then have 2: "listing_key ?y = str ''https://www.carsensor.net/usedcar/detail/1''" by simp
  show ?thesis using p q 1 2 BASE_URL_nonempty by blast
qed

section \<open>Properties of the matcher\<close>

lemma take_within_takeWhile:
  assumes "k \<le> length (takeWhile P s)"
  shows "list_all P (take k s)" and "length (take k s) = k"
proof -
  have "take k s = take k (takeWhile P s @ dropWhile P s)" by simp
  also have "\<dots> = take k (takeWhile P s)" using assms by (simp del: takeWhile_dropWhile_id)
  finally have t: "take k s = take k (takeWhile P s)" .
  have "set (take k (takeWhile P s)) \<subseteq> set (takeWhile P s)" by (rule set_take_subset)
  then show "list_all P (take k s)" unfolding t by (auto simp: list_all_iff dest: set_takeWhileD)
  show "length (take k s) = k" unfolding t using assms by simp
qed

lemma rx_match_sound:
  "(s', g') \<in> set (rx_match ci r (s, g)) \<Longrightarrow> \<exists>w. s = w @ s' \<and> rx_lang ci r w"
proof (induction r arbitrary: s g s' g')
  case (Cls P lo hi)
  let ?n = "length (takeWhile P s)"
  let ?m = "case hi of None \<Rightarrow> ?n | Some h \<Rightarrow> min ?n h"
  from Cls obtain k where k: "lo \<le> k" "k \<le> ?m" and s': "s' = drop k s"
    by (auto simp: Let_def)
  have kn: "k \<le> ?n" using k(2) by (cases hi) auto
  have kh: "case hi of None \<Rightarrow> True | Some h \<Rightarrow> k \<le> h" using k(2) by (cases hi) auto
  from take_within_takeWhile [OF kn] have "list_all P (take k s)" "length (take k s) = k" by auto
  then have "rx_lang ci (Cls P lo hi) (take k s)" using k(1) kh by (cases hi) auto
  then show ?case using s' by (metis append_take_drop_id)
next
  case (Lit t)
  then have "length t \<le> length s" "list_all2 ci t (take (length t) s)" "s' = drop (length t) s"
    by (auto split: if_splits)
  then show ?case by (metis append_take_drop_id rx_lang.simps(2))
next
  case (Cat a b)
  then obtain s1 g1 where 1: "(s1, g1) \<in> set (rx_match ci a (s, g))"
    and 2: "(s', g') \<in> set (rx_match ci b (s1, g1))" by auto
  from Cat.IH(1) [OF 1] obtain u where u: "s = u @ s1" "rx_lang ci a u" by blast
  from Cat.IH(2) [OF 2] obtain v where v: "s1 = v @ s'" "rx_lang ci b v" by blast
  have "s = (u @ v) @ s'" using u v by simp
  moreover have "rx_lang ci (Cat a b) (u @ v)" using u v by auto
  ultimately show ?case by blast
next
  case (Opt a)
  then consider "(s', g') \<in> set (rx_match ci a (s, g))" | "s' = s" by auto
  then show ?case
  proof cases
    case 1
    from Opt.IH [OF 1] show ?thesis by auto
  next
    case 2
    then show ?thesis by simp
  qed
next
  case (Grp name a)
  then obtain g0 where "(s', g0) \<in> set (rx_match ci a (s, g))" by auto
  from Grp.IH [OF this] show ?case by simp
qed

lemma rx_match_complete:
  "rx_lang ci r w \<Longrightarrow> \<exists>g'. (s', g') \<in> set (rx_match ci r (w @ s', g))"
proof (induction r arbitrary: w s' g)
  case (Cls P lo hi)
  let ?n = "length (takeWhile P (w @ s'))"
  let ?m = "case hi of None \<Rightarrow> ?n | Some h \<Rightarrow> min ?n h"
  from Cls have all: "list_all P w" and lo: "lo \<le> length w"
    and hi: "case hi of None \<Rightarrow> True | Some h \<Rightarrow> length w \<le> h" by auto
  have "takeWhile P (w @ s') = w @ takeWhile P s'"
    using all by (simp add: list_all_iff)
  then have "length w \<le> ?n" by simp
  then have "length w \<le> ?m" using hi by (cases hi) auto
  then have "length w < Suc ?m" by (rule le_imp_less_Suc)
  then have "length w \<in> set (rev [lo..<Suc ?m])" using lo by (simp del: upt_Suc)
  then have "(drop (length w) (w @ s'), g) \<in> set (rx_match ci (Cls P lo hi) (w @ s', g))"
    by (simp only: rx_match.simps Let_def set_map) (rule imageI)
  then show ?case by auto
next
  case (Lit t)
  then have "length t = length w" by (auto dest: list_all2_lengthD)
  then show ?case using Lit by auto
next
  case (Cat a b)
  then obtain u v where w: "w = u @ v" and u: "rx_lang ci a u" and v: "rx_lang ci b v" by auto
  from Cat.IH(1) [OF u, of "v @ s'" g] obtain g1 where
    1: "(v @ s', g1) \<in> set (rx_match ci a (u @ v @ s', g))" by blast
  from Cat.IH(2) [OF v, of s' g1] obtain g2 where
    2: "(s', g2) \<in> set (rx_match ci b (v @ s', g1))" by blast
  from 1 2 have "(s', g2) \<in> set (rx_match ci (Cat a b) (w @ s', g))"
    unfolding w by (auto intro!: bexI [of _ "(v @ s', g1)"])
  then show ?case by blast
next
  case (Opt a)
  show ?case
  proof (cases "w = []")
    case True
    then show ?thesis by auto
  next
    case False
    then have "rx_lang ci a w" using Opt.prems by simp
    from Opt.IH [OF this, of s' g] show ?thesis by auto
  qed
next
  case (Grp name a)
  then have "rx_lang ci a w" by simp
  from Grp.IH [OF this, of s' g] obtain g0 where "(s', g0) \<in> set (rx_match ci a (w @ s', g))" by blast
  then have "(s', (name, take (length (w @ s') - length s') (w @ s')) # g0)
      \<in> set (rx_match ci (Grp name a) (w @ s', g))"
    by (auto intro!: image_eqI [of _ _ "(s', g0)"])
  then show ?case by blast
qed

lemma rx_match_group_free:
  "group_free r \<Longrightarrow> (s', g') \<in> set (rx_match ci r (s, g)) \<Longrightarrow> g' = g"
  by (induction r arbitrary: s g s' g') (auto simp: Let_def split: if_splits, blast+)

lemma re_search_None:
  "re_search ci r s = None \<Longrightarrow> s = p @ y \<Longrightarrow> rx_match ci r (y, []) = []"
proof (induction s arbitrary: p)
  case Nil
  then show ?case by (auto split: list.splits)
next
  case (Cons c cs)
  from Cons.prems(1) have here: "rx_match ci r (c # cs, []) = []"
    and rest: "re_search ci r cs = None"
    by (auto split: list.splits)
  show ?case
  proof (cases p)
    case Nil
    then show ?thesis using here Cons.prems(2) by simp
  next
    case (Cons a p')
    then have "cs = p' @ y" using Cons.prems(2) by simp
    from Cons.IH [OF rest this] show ?thesis .
  qed
qed

lemma re_search_Some:
  "re_search ci r s = Some (pre, g, rest) \<Longrightarrow>
   \<exists>x ms. s = pre @ x \<and> rx_match ci r (x, []) = (rest, g) # ms
     \<and> (\<forall>p y. s = p @ y \<and> length p < length pre \<longrightarrow> rx_match ci r (y, []) = [])"
proof (induction s arbitrary: pre)
  case Nil
  then show ?case by (auto split: list.splits)
next
  case (Cons c cs)
  show ?case
  proof (cases "rx_match ci r (c # cs, [])")
    case Nil
    with Cons.prems obtain pre' where f: "re_search ci r cs = Some (pre', g, rest)"
      and pre: "pre = c # pre'"
      by (auto split: option.splits)
    from Cons.IH [OF f] obtain x ms where x: "cs = pre' @ x"
      "rx_match ci r (x, []) = (rest, g) # ms"
      "\<forall>p y. cs = p @ y \<and> length p < length pre' \<longrightarrow> rx_match ci r (y, []) = []"
      by blast
    have "\<forall>p y. c # cs = p @ y \<and> length p < length pre \<longrightarrow> rx_match ci r (y, []) = []"
    proof (intro allI impI)
      fix p y assume a: "c # cs = p @ y \<and> length p < length pre"
      show "rx_match ci r (y, []) = []"
      proof (cases p)
        case Nil
        then show ?thesis using a \<open>rx_match ci r (c # cs, []) = []\<close> by simp
      next
        case (Cons a' p')
        then have "cs = p' @ y \<and> length p' < length pre'" using a pre by simp
        then show ?thesis using x(3) by blast
      qed
    qed
    then show ?thesis using x(1,2) pre by auto
  next
    case (Cons m ms)
    with Cons.prems have "pre = []" "m = (rest, g)" by (auto simp: prod_eq_iff)
    then show ?thesis using Cons by auto
  qed
qed

lemma first_group_match:
  assumes "group_free a" "group_free b"
    and "(s', g') \<in> set (rx_match ci (Cat (Grp n a) b) (s, []))"
  shows "\<exists>u v. s = u @ v @ s' \<and> rx_lang ci a u \<and> rx_lang ci b v \<and> g' = [(n, u)]"
proof -
  from assms(3) have "\<exists>st \<in> set (rx_match ci (Grp n a) (s, [])). (s', g') \<in> set (rx_match ci b st)"
    by (simp del: rx_match.simps(5))
  then obtain s1 g1 where 1: "(s1, g1) \<in> set (rx_match ci (Grp n a) (s, []))"
    and 2: "(s', g') \<in> set (rx_match ci b (s1, g1))" by (metis surj_pair)
  from 1 obtain g0 where 0: "(s1, g0) \<in> set (rx_match ci a (s, []))"
    and g1: "g1 = (n, take (length s - length s1) s) # g0" by auto
  from rx_match_group_free [OF assms(1) 0] have g0: "g0 = []" .
  from rx_match_sound [OF 0] obtain u where u: "s = u @ s1" "rx_lang ci a u" by blast
  from rx_match_sound [OF 2] obtain v where v: "s1 = v @ s'" "rx_lang ci b v" by blast
  from rx_match_group_free [OF assms(2) 2] have "g' = g1" .
  moreover have "take (length s - length s1) s = u" using u(1) by simp
  ultimately have "g' = [(n, u)]" using g1 g0 by simp
  then show ?thesis using u v by auto
qed

lemma numeral_lang:
  "rx_lang (=) (Cat (Cls is_digit 1 None) (Opt (Cat (Lit (str ''.'')) (Cls is_digit 1 None)))) d
   \<longleftrightarrow> is_numeral d"
proof -
  have dg: "rx_lang (=) (Cls is_digit 1 None) w \<longleftrightarrow> is_digits w" for w
    by (cases w) (auto simp: is_digits_def)
  have pt: "rx_lang (=) (Lit (str ''.'')) w \<longleftrightarrow> w = [46]" for w
    by (auto simp: str_def list_all2_Cons1)
  show ?thesis
  proof
    assume "rx_lang (=) (Cat (Cls is_digit 1 None) (Opt (Cat (Lit (str ''.'')) (Cls is_digit 1 None)))) d"
    then obtain u v where d: "d = u @ v" and u: "is_digits u"
      and v: "v = [] \<or> (\<exists>p f. v = p @ f \<and> p = [46] \<and> is_digits f)"
      by (auto simp only: rx_lang.simps(3,4) dg pt)
    from v show "is_numeral d"
    proof
      assume "v = []"
      then show ?thesis using d u by (simp add: is_numeral_def)
    next
      assume "\<exists>p f. v = p @ f \<and> p = [46] \<and> is_digits f"
      then obtain f where "v = [46] @ f" "is_digits f" by auto
      then show ?thesis using d u unfolding is_numeral_def by blast
    qed
  next
    assume "is_numeral d"
    then consider "is_digits d" | ip fp where "d = ip @ [46] @ fp" "is_digits ip" "is_digits fp"
      unfolding is_numeral_def by blast
    then show "rx_lang (=) (Cat (Cls is_digit 1 None) (Opt (Cat (Lit (str ''.'')) (Cls is_digit 1 None)))) d"
    proof cases
      case 1
      then have "d = d @ [] \<and> is_digits d \<and> ([] = [] \<or> (\<exists>p f. [] = p @ f \<and> p = [46] \<and> is_digits f))"
        by simp
      then show ?thesis by (simp only: rx_lang.simps(3,4) dg pt) blast
    next
      case 2
      then have "d = ip @ ([46] @ fp) \<and> is_digits ip
          \<and> ([46] @ fp = [] \<or> (\<exists>p f. [46] @ fp = p @ f \<and> p = [46] \<and> is_digits f))"
        by blast
      then show ?thesis by (simp only: rx_lang.simps(3,4) dg pt) blast
    qed
  qed
qed

lemma unit_lang:
  "rx_lang (=) (Cat (Cls py_isspace 0 None) (Lit m)) v \<longleftrightarrow> is_unit m v"
  by (auto simp: is_unit_def list_all2_eq [symmetric])

lemma digits_lang: "rx_lang (=) (Cls is_digit 1 None) w \<longleftrightarrow> is_digits w"
  by (cases w) (auto simp: is_digits_def)

lemma numeral_chars: "is_numeral u \<Longrightarrow> c \<in> set u \<Longrightarrow> is_digit c \<or> c = 46"
  by (auto simp: is_numeral_def is_digits_def list_all_iff)

lemma digits_numeral: "is_digits d \<Longrightarrow> is_numeral d"
  by (simp add: is_numeral_def)

lemma space_not_numeral_char: "py_isspace c \<Longrightarrow> \<not> is_digit c \<and> c \<noteq> 46"
  by (auto simp: py_isspace_def is_digit_def)

lemma unit_head:
  assumes "is_unit m v" "m \<noteq> []" "\<not> is_digit (hd m)" "hd m \<noteq> 46"
  shows "v \<noteq> [] \<and> \<not> is_digit (hd v) \<and> hd v \<noteq> 46"
proof -
  from assms(1) obtain ws where v: "v = ws @ m" and ws: "list_all py_isspace ws"
    by (auto simp: is_unit_def)
  show ?thesis
  proof (cases ws)
    case Nil
    then show ?thesis using v assms by simp
  next
    case (Cons w ws')
    then have "py_isspace w" using ws by simp
    then show ?thesis using v Cons space_not_numeral_char by simp
  qed
qed

lemma numeral_prefix_unique:
  assumes u: "is_numeral u" and u': "is_numeral u'"
    and v: "v \<noteq> [] \<and> \<not> is_digit (hd v) \<and> hd v \<noteq> 46"
    and v': "v' \<noteq> [] \<and> \<not> is_digit (hd v') \<and> hd v' \<noteq> 46"
    and eq: "u @ v @ r = u' @ v' @ r'"
  shows "u = u'"
proof -
  have one: "a = b" if a: "is_numeral b" and w: "w \<noteq> [] \<and> \<not> is_digit (hd w) \<and> hd w \<noteq> 46"
    and e: "a @ t = b" "w @ q = t @ z" for a b t w q z :: pystr
  proof (cases t)
    case Nil
    then show ?thesis using e by simp
  next
    case (Cons c t')
    then have "hd w = c" using e(2) w by (cases w) auto
    moreover have "c \<in> set b" using e(1) Cons by auto
    ultimately show ?thesis using numeral_chars [OF a] w by blast
  qed
  from eq have "\<exists>t. u = u' @ t \<and> t @ (v @ r) = v' @ r' \<or> u @ t = u' \<and> v @ r = t @ (v' @ r')"
    by (simp only: append_eq_append_conv2)
  then obtain t where "(u = u' @ t \<and> t @ v @ r = v' @ r') \<or> (u @ t = u' \<and> v @ r = t @ v' @ r')"
    by blast
  then show ?thesis
  proof
    assume "u = u' @ t \<and> t @ v @ r = v' @ r'"
    then have "u' @ t = u" "v' @ r' = t @ (v @ r)" by auto
    from one [OF u v' this] show ?thesis by simp
  next
    assume "u @ t = u' \<and> v @ r = t @ v' @ r'"
    then have "u @ t = u'" "v @ r = t @ (v' @ r')" by auto
    from one [OF u' v this] show ?thesis .
  qed
qed

lemma search_unit_None:
  assumes "group_free a" and lang: "\<And>w. rx_lang (=) a w \<longleftrightarrow> num w"
  shows "re_search (=) (Cat (Grp n a) (Cat (Cls py_isspace 0 None) (Lit m))) s = None
         \<longleftrightarrow> no_match num m s"
proof
  let ?P = "Cat (Grp n a) (Cat (Cls py_isspace 0 None) (Lit m))"
  assume none: "re_search (=) ?P s = None"
  show "no_match num m s"
    unfolding no_match_def matches_at_def
  proof (intro allI notI)
    fix pre d assume "num d \<and> (\<exists>v post. s = pre @ d @ v @ post \<and> is_unit m v)"
    then obtain v post where d: "num d" and s: "s = pre @ d @ v @ post" and v: "is_unit m v"
      by blast
    have "rx_lang (=) ?P (d @ v)"
      using d v lang unit_lang [of m v] by (simp only: rx_lang.simps(3,5)) blast
    from rx_match_complete [OF this, of post "[]"]
    obtain g' where "(post, g') \<in> set (rx_match (=) ?P ((d @ v) @ post, []))" by blast
    moreover have "rx_match (=) ?P ((d @ v) @ post, []) = []"
      using re_search_None [OF none, of pre "(d @ v) @ post"] s by simp
    ultimately show False by simp
  qed
next
  let ?P = "Cat (Grp n a) (Cat (Cls py_isspace 0 None) (Lit m))"
  assume nm: "no_match num m s"
  show "re_search (=) ?P s = None"
  proof (rule ccontr)
    assume "re_search (=) ?P s \<noteq> None"
    then obtain pre g rest where "re_search (=) ?P s = Some (pre, g, rest)" by auto
    from re_search_Some [OF this] obtain x ms where
      x: "s = pre @ x" "rx_match (=) ?P (x, []) = (rest, g) # ms" by blast
    then have "(rest, g) \<in> set (rx_match (=) ?P (x, []))" by simp
    from first_group_match [OF assms(1) _ this] obtain u v where
      "x = u @ v @ rest" "rx_lang (=) a u" "rx_lang (=) (Cat (Cls py_isspace 0 None) (Lit m)) v"
      by auto
    then have "matches_at num m s pre u"
      using x(1) lang unit_lang [of m v] unfolding matches_at_def by blast
    then show False using nm unfolding no_match_def by blast
  qed
qed

lemma search_unit_first:
  assumes gf: "group_free a" and lang: "\<And>w. rx_lang (=) a w \<longleftrightarrow> num w"
    and num: "\<And>w. num w \<Longrightarrow> is_numeral w"
    and m: "m \<noteq> []" "\<not> is_digit (hd m)" "hd m \<noteq> 46"
    and fm: "first_match num m s pre d"
  shows "\<exists>g rest. re_search (=) (Cat (Grp n a) (Cat (Cls py_isspace 0 None) (Lit m))) s
                     = Some (pre, g, rest) \<and> match_group g n = d"
proof -
  let ?P = "Cat (Grp n a) (Cat (Cls py_isspace 0 None) (Lit m))"
  from fm have ma: "matches_at num m s pre d"
    and least: "\<And>pre' d'. matches_at num m s pre' d' \<Longrightarrow> length pre \<le> length pre'"
    unfolding first_match_def by blast+
  from ma obtain v post where d: "num d" and s: "s = pre @ d @ v @ post" and v: "is_unit m v"
    unfolding matches_at_def by blast
  have "rx_lang (=) ?P (d @ v)"
    using d v lang unit_lang [of m v] by (simp only: rx_lang.simps(3,5)) blast
  from rx_match_complete [OF this, of post "[]"]
  obtain g0 where here: "(post, g0) \<in> set (rx_match (=) ?P ((d @ v) @ post, []))" by blast
  have "\<not> no_match num m s" using ma unfolding no_match_def by blast
  then have "re_search (=) ?P s \<noteq> None" using search_unit_None [OF gf lang] by blast
  then obtain pre0 g rest where f: "re_search (=) ?P s = Some (pre0, g, rest)" by auto
  from re_search_Some [OF f] obtain x ms where
    x: "s = pre0 @ x" "rx_match (=) ?P (x, []) = (rest, g) # ms"
    and earlier: "\<And>p y. s = p @ y \<Longrightarrow> length p < length pre0 \<Longrightarrow> rx_match (=) ?P (y, []) = []"
    by blast
  from x(2) have "(rest, g) \<in> set (rx_match (=) ?P (x, []))" by simp
  from first_group_match [OF gf _ this] obtain u v0 where
    u: "x = u @ v0 @ rest" "rx_lang (=) a u"
       "rx_lang (=) (Cat (Cls py_isspace 0 None) (Lit m)) v0" "g = [(n, u)]"
    by auto
  have v0: "is_unit m v0" using u(3) unit_lang [of m v0] by blast
  have "matches_at num m s pre0 u"
    using x(1) u(1,2) lang v0 unfolding matches_at_def by blast
  from least [OF this] have le: "length pre \<le> length pre0" .
  have "\<not> length pre < length pre0"
  proof
    assume "length pre < length pre0"
    from earlier [of pre "(d @ v) @ post", OF _ this] s
    have "rx_match (=) ?P ((d @ v) @ post, []) = []" by simp
    then show False using here by simp
  qed
  with le have "length pre = length pre0" by simp
  then have p: "pre0 = pre" and xe: "x = d @ v @ post" using s x(1) by auto
  have "u @ v0 @ rest = d @ v @ post" using u(1) xe by simp
  from numeral_prefix_unique [OF num [OF u(2) [unfolded lang]] num [OF d]
      unit_head [OF v0 m] unit_head [OF v m] this]
  have "u = d" .
  then have "match_group g n = d" using u(4) by (simp add: match_group_def)
  then show ?thesis using f p by blast
qed

section \<open>Numerals and doubles\<close>

lemma foldl_digits_nonneg: "0 \<le> a \<Longrightarrow> 0 \<le> foldl (\<lambda>a c. 10 * a + int (c - 48)) a ds"
  by (induction ds arbitrary: a) auto

lemma int_of_digits_nonneg: "0 \<le> int_of_digits ds"
  by (simp add: int_of_digits_def foldl_digits_nonneg)

lemma numeral_value_nonneg: "0 \<le> numeral_value d"
  by (simp add: numeral_value_def Let_def int_of_digits_nonneg)

lemma takeWhile_digits_point:
  "list_all is_digit ip \<Longrightarrow> takeWhile is_digit (ip @ 46 # fp) = ip
     \<and> dropWhile is_digit (ip @ 46 # fp) = 46 # fp"
  by (induction ip) (auto simp: is_digit_def)

lemma takeWhile_all: "list_all P xs \<Longrightarrow> takeWhile P xs = xs \<and> dropWhile P xs = []"
  by (induction xs) auto

lemma unsigned_decimal_numeral:
  assumes "is_numeral d"
  shows "unsigned_decimal d = Some (numeral_value d)"
proof -
  from assms consider "is_digits d"
    | ip fp where "d = ip @ [46] @ fp" "is_digits ip" "is_digits fp"
    unfolding is_numeral_def by blast
  then show ?thesis
  proof cases
    case 1
    then have t: "takeWhile is_digit d = d" "dropWhile is_digit d = []" "d \<noteq> []"
      using takeWhile_all [of is_digit d] by (auto simp: is_digits_def)
    have "int_of_digits [] = 0" by (simp add: int_of_digits_def)
    then show ?thesis
      unfolding unsigned_decimal_def numeral_value_def Let_def t(1,2) using t(3) by simp
  next
    case 2
    then have t: "takeWhile is_digit d = ip" "dropWhile is_digit d = 46 # fp"
      and n: "ip \<noteq> []" "fp \<noteq> []" "list_all is_digit fp"
      using takeWhile_digits_point [of ip fp] by (auto simp: is_digits_def)
    have dr: "drop (Suc (length ip)) d = fp" using 2(1) by simp
    show ?thesis
      unfolding unsigned_decimal_def numeral_value_def Let_def t dr using n by simp
  qed
qed

lemma digits_head: "is_digits d \<Longrightarrow> d \<noteq> [] \<and> is_digit (hd d)"
  by (cases d) (auto simp: is_digits_def)

lemma numeral_head: "is_numeral d \<Longrightarrow> d \<noteq> [] \<and> is_digit (hd d)"
  unfolding is_numeral_def using digits_head by (elim disjE exE conjE) auto

lemma plain_decimal_numeral:
  assumes "is_numeral d"
  shows "plain_decimal d = Some (numeral_value d)"
proof -
  from numeral_head [OF assms] obtain c cs where d: "d = c # cs" and c: "is_digit c"
    by (cases d) auto
  then have "c \<noteq> 45" "c \<noteq> 43" by (auto simp: is_digit_def)
  then show ?thesis
    using unsigned_decimal_numeral [OF assms] d by (simp add: plain_decimal_def)
qed

lemma py_float_numeral: "is_numeral d \<Longrightarrow> py_float L d = Some (to_double (numeral_value d))"
  by (simp add: py_float_def plain_decimal_numeral)

lemma pow2_pos: "0 < pow2 e"
  by (simp add: pow2_def)

lemma round_half_even_nonneg: "0 \<le> m \<Longrightarrow> 0 \<le> round_half_even m"
  by (auto simp: round_half_even_def Let_def)

lemma round_pos_nonneg:
  "0 < a \<Longrightarrow> round_pos a = PosInf \<or> (\<exists>r. round_pos a = Finite r \<and> 0 \<le> r)"
proof -
  assume a: "0 < a"
  let ?qe = "max (floor_log2 a - 52) (- 1074)"
  have "0 \<le> a / pow2 ?qe" using a pow2_pos [of ?qe] by simp
  then have "0 \<le> round_half_even (a / pow2 ?qe)" by (rule round_half_even_nonneg)
  then have "0 \<le> of_int (round_half_even (a / pow2 ?qe)) * pow2 ?qe"
    using pow2_pos [of ?qe] by simp
  then show ?thesis by (auto simp: round_pos_def Let_def)
qed

lemma to_double_nonneg:
  "0 \<le> q \<Longrightarrow> to_double q = PosInf \<or> (\<exists>r. to_double q = Finite r \<and> 0 \<le> r)"
  using round_pos_nonneg [of q] by (auto simp: to_double_def)

lemma int_of_float_times_nonneg:
  assumes "0 \<le> q" "int_of_float (float_mul (to_double q) (Finite 10000)) = Inr n"
  shows "0 \<le> n"
proof -
  from to_double_nonneg [OF assms(1)] consider "to_double q = PosInf"
    | r where "to_double q = Finite r" "0 \<le> r" by blast
  then show ?thesis
  proof cases
    case 1
    then show ?thesis using assms(2) by simp
  next
    case 2
    then have "0 \<le> r * 10000" by simp
    from to_double_nonneg [OF this] consider "to_double (r * 10000) = PosInf"
      | r' where "to_double (r * 10000) = Finite r'" "0 \<le> r'" by blast
    then show ?thesis
    proof cases
      case 1
      then show ?thesis using assms(2) 2 by simp
    next
      case 2
      then show ?thesis using assms(2) \<open>to_double q = Finite r\<close> by auto
    qed
  qed
qed

lemma floor_rat_numeral_div [simp]:
  "\<lfloor>numeral a / numeral b :: rat\<rfloor> = numeral a div numeral b"
  using floor_divide_of_int_eq [of "numeral a" "numeral b", where ?'a = rat] by simp

lemma floor_rat_one_div [simp]:
  "\<lfloor>1 / numeral b :: rat\<rfloor> = 1 div numeral b"
  using floor_divide_of_int_eq [of 1 "numeral b", where ?'a = rat] by simp

lemma ceiling_rat_numeral_div [simp]:
  "\<lceil>numeral a / numeral b :: rat\<rceil> = - (- numeral a div numeral b)"
  using ceiling_divide_eq_div [of "numeral a" "numeral b", where ?'a = rat] by simp

lemma ceiling_rat_one_div [simp]:
  "\<lceil>1 / numeral b :: rat\<rceil> = - (- 1 div numeral b)"
  using ceiling_divide_eq_div [of 1 "numeral b", where ?'a = rat] by simp

lemmas double_eval =
  to_double_def round_pos_def floor_log2_def pow2_def round_half_even_def bit_length.simps Let_def

lemmas price_eval =
  normalize_price_def price_man_rx_def price_yen_rx_def str_def is_digit_def py_isspace_def
  match_group_def int_of_digits_def py_float_def plain_decimal_def unsigned_decimal_def
  unit_man_yen_def unit_yen_def int_of_text_def max_str_digits_def

lemma exists_first_match:
  "no_match num m s \<or> (\<exists>pre d. first_match num m s pre d)"
proof (cases "no_match num m s")
  case True
  then show ?thesis by simp
next
  case False
  then have "\<exists>x. matches_at num m s (fst x) (snd x)" by (auto simp: no_match_def)
  then obtain x0 where "matches_at num m s (fst x0) (snd x0)" by blast
  from ex_has_least_nat [where P = "\<lambda>x. matches_at num m s (fst x) (snd x)"
      and m = "\<lambda>x. length (fst x)", OF this]
  obtain x where "matches_at num m s (fst x) (snd x)"
    "\<forall>y. matches_at num m s (fst y) (snd y) \<longrightarrow> length (fst x) \<le> length (fst y)" by blast
  then have "first_match num m s (fst x) (snd x)"
    unfolding first_match_def by (metis fst_conv snd_conv)
  then show ?thesis by blast
qed

lemma man_search_first:
  assumes "first_match is_numeral unit_man_yen s pre d"
  shows "\<exists>g rest. re_search (=) price_man_rx s = Some (pre, g, rest) \<and> match_group g ''1'' = d"
  unfolding price_man_rx_def
  by (rule search_unit_first [where num = is_numeral, OF _ numeral_lang _ _ _ _ assms [unfolded unit_man_yen_def]])
     (simp_all add: is_digit_def)

lemma man_search_None:
  "re_search (=) price_man_rx s = None \<longleftrightarrow> no_match is_numeral unit_man_yen s"
  unfolding price_man_rx_def unit_man_yen_def
  by (rule search_unit_None [OF _ numeral_lang]) simp

lemma yen_search_first:
  assumes "first_match is_digits unit_yen s pre d"
  shows "\<exists>g rest. re_search (=) price_yen_rx s = Some (pre, g, rest) \<and> match_group g ''1'' = d"
  unfolding price_yen_rx_def
  by (rule search_unit_first [where num = is_digits, OF _ digits_lang digits_numeral _ _ _ assms [unfolded unit_yen_def]])
     (simp_all add: is_digit_def)

lemma yen_search_None:
  "re_search (=) price_yen_rx s = None \<longleftrightarrow> no_match is_digits unit_yen s"
  unfolding price_yen_rx_def unit_yen_def
  by (rule search_unit_None [OF _ digits_lang]) simp

lemma normalize_price_man:
  assumes "first_match is_numeral unit_man_yen (filter (\<lambda>c. c \<noteq> 44) text) pre d"
  shows "normalize_price L text =
     (case int_of_float (float_mul (to_double (numeral_value d)) (Finite 10000)) of
        Inl e \<Rightarrow> Inl e | Inr n \<Rightarrow> Inr (Some n))"
proof -
  from man_search_first [OF assms] obtain g rest where
    "re_search (=) price_man_rx (filter (\<lambda>c. c \<noteq> 44) text) = Some (pre, g, rest)"
    "match_group g ''1'' = d" by blast
  moreover have "is_numeral d" using assms by (simp add: first_match_def matches_at_def)
  ultimately show ?thesis by (simp add: normalize_price_def py_float_numeral)
qed

lemma float_times_nonneg:
  assumes "0 \<le> q" "float_mul (to_double q) (Finite 10000) = Finite x"
  shows "0 \<le> x"
proof -
  from to_double_nonneg [OF assms(1)] consider "to_double q = PosInf"
    | r where "to_double q = Finite r" "0 \<le> r" by blast
  then show ?thesis
  proof cases
    case 1
    then show ?thesis using assms(2) by simp
  next
    case 2
    then have "0 \<le> r * 10000" by simp
    from to_double_nonneg [OF this] show ?thesis using assms(2) 2 by auto
  qed
qed

lemma normalize_price_man_floor:
  assumes "first_match is_numeral unit_man_yen (filter (\<lambda>c. c \<noteq> 44) text) pre d"
    and "float_mul (to_double (numeral_value d)) (Finite 10000) = Finite x"
    and "\<lfloor>x\<rfloor> = \<lfloor>numeral_value d * 10000\<rfloor>"
  shows "normalize_price L text = Inr (Some \<lfloor>numeral_value d * 10000\<rfloor>)"
proof -
  have "0 \<le> x" using numeral_value_nonneg assms(2) by (rule float_times_nonneg)
  then show ?thesis using normalize_price_man [OF assms(1), of L] assms(2,3) by simp
qed

lemma normalize_price_yen_text:
  assumes "no_match is_numeral unit_man_yen (filter (\<lambda>c. c \<noteq> 44) text)"
    and "first_match is_digits unit_yen (filter (\<lambda>c. c \<noteq> 44) text) pre d"
  shows "normalize_price L text = (case int_of_text d of Inl e \<Rightarrow> Inl e | Inr n \<Rightarrow> Inr (Some n))"
proof -
  from yen_search_first [OF assms(2)] obtain g rest where
    "re_search (=) price_yen_rx (filter (\<lambda>c. c \<noteq> 44) text) = Some (pre, g, rest)"
    "match_group g ''1'' = d" by blast
  moreover have "re_search (=) price_man_rx (filter (\<lambda>c. c \<noteq> 44) text) = None"
    using assms(1) man_search_None by blast
  ultimately show ?thesis by (simp add: normalize_price_def)
qed

lemma normalize_price_yen:
  assumes "no_match is_numeral unit_man_yen (filter (\<lambda>c. c \<noteq> 44) text)"
    and "first_match is_digits unit_yen (filter (\<lambda>c. c \<noteq> 44) text) pre d"
    and "length d \<le> max_str_digits"
  shows "normalize_price L text = Inr (Some (int_of_digits d))"
  using normalize_price_yen_text [OF assms(1,2), of L] assms(3) by (simp add: int_of_text_def)

lemma normalize_price_yen_limit:
  assumes "no_match is_numeral unit_man_yen (filter (\<lambda>c. c \<noteq> 44) text)"
    and "first_match is_digits unit_yen (filter (\<lambda>c. c \<noteq> 44) text) pre d"
    and "max_str_digits < length d"
  shows "normalize_price L text = Inl (int_limit_error (length d))"
  using normalize_price_yen_text [OF assms(1,2), of L] assms(3) by (simp add: int_of_text_def)

lemma normalize_price_none:
  assumes "no_match is_numeral unit_man_yen (filter (\<lambda>c. c \<noteq> 44) text)"
    and "no_match is_digits unit_yen (filter (\<lambda>c. c \<noteq> 44) text)"
  shows "normalize_price L text = Inr None"
proof -
  have "re_search (=) price_man_rx (filter (\<lambda>c. c \<noteq> 44) text) = None"
    using assms(1) man_search_None by blast
  moreover have "re_search (=) price_yen_rx (filter (\<lambda>c. c \<noteq> 44) text) = None"
    using assms(2) yen_search_None by blast
  ultimately show ?thesis by (simp add: normalize_price_def)
qed

lemma normalize_price_nonneg:
  assumes "normalize_price L text = Inr (Some p)"
  shows "0 \<le> p"
proof -
  let ?c = "filter (\<lambda>c. c \<noteq> 44) text"
  consider "no_match is_numeral unit_man_yen ?c" "no_match is_digits unit_yen ?c"
    | pre d where "no_match is_numeral unit_man_yen ?c" "first_match is_digits unit_yen ?c pre d"
    | pre d where "first_match is_numeral unit_man_yen ?c pre d"
    using exists_first_match [of is_numeral unit_man_yen ?c]
      exists_first_match [of is_digits unit_yen ?c] by blast
  then show ?thesis
  proof cases
    case 1
    from normalize_price_none [OF 1, of L] assms show ?thesis by simp
  next
    case 2
    from normalize_price_yen_text [OF 2, of L] assms int_of_digits_nonneg [of d] show ?thesis
      by (auto simp: int_of_text_def split: if_splits)
  next
    case 3
    from normalize_price_man [OF 3, of L] assms
    have "int_of_float (float_mul (to_double (numeral_value d)) (Finite 10000)) = Inr p"
      by (auto split: sum.splits)
    from int_of_float_times_nonneg [OF numeral_value_nonneg this] show ?thesis .
  qed
qed

lemma normalize_price_examples:
  "normalize_price L (str ''1,480,000'' @ unit_yen) = Inr (Some 1480000)"
  "normalize_price L (str ''98.5'' @ unit_man_yen) = Inr (Some 985000)"
  "normalize_price L (str ''no price'') = Inr None"
  by (simp_all add: price_eval double_eval)

section \<open>normalize\_price\<close>

lemma first_match_example:
  "first_match is_numeral unit_man_yen (filter (\<lambda>c. c \<noteq> 44) (str ''129.8 '' @ unit_man_yen))
     [] (str ''129.8'')"
proof -
  have n: "is_numeral (str ''129.8'')"
    unfolding is_numeral_def
    by (rule disjI2, rule exI [of _ "str ''129''"], rule exI [of _ "str ''8''"])
       (simp add: str_def is_digits_def is_digit_def)
  have u: "is_unit unit_man_yen (str '' '' @ unit_man_yen)"
    unfolding is_unit_def by (rule exI [of _ "str '' ''"]) (simp add: str_def py_isspace_def)
  have "filter (\<lambda>c. c \<noteq> 44) (str ''129.8 '' @ unit_man_yen)
        = [] @ str ''129.8'' @ (str '' '' @ unit_man_yen) @ []"
    by (simp add: str_def unit_man_yen_def)
  then have "matches_at is_numeral unit_man_yen
      (filter (\<lambda>c. c \<noteq> 44) (str ''129.8 '' @ unit_man_yen)) [] (str ''129.8'')"
    unfolding matches_at_def using n u by blast
  then show ?thesis by (simp add: first_match_def)
qed

lemma numeral_value_example: "numeral_value (str ''129.8'') = 649 / 5"
  by (simp add: numeral_value_def str_def is_digit_def int_of_digits_def)

lemma double_product_example:
  "float_mul (to_double (numeral_value (str ''129.8''))) (Finite 10000) = Finite 1298000"
  unfolding numeral_value_example by (simp add: double_eval)

text \<open>
  C4, as amended: \<open>normalize_price\<close> removes the commas. If a numeral, integer or decimal,
  followed by white space, possibly none, and the marker of ten thousand yen stands in
  the text, it takes the leftmost one, and it returns the numeral times 10000 truncated
  whenever the product of the doubles truncates to the same integer as the exact
  product, as it does when the product of the doubles is the exact product. Otherwise,
  if an integer numeral followed by white space, possibly none, and the marker of yen
  stands in the text, it takes the leftmost one and returns its integer when the
  numeral has at most 4300 digits, and raises \<open>ValueError\<close> when it has more. Otherwise
  it returns \<open>None\<close>. One of the three cases holds for every text. The three examples
  of the specification hold.
\<close>

theorem normalize_price_spec:
  "(first_match is_numeral unit_man_yen (filter (\<lambda>c. c \<noteq> 44) text) pre d
      \<and> float_mul (to_double (numeral_value d)) (Finite 10000) = Finite x
      \<and> \<lfloor>x\<rfloor> = \<lfloor>numeral_value d * 10000\<rfloor> \<longrightarrow>
      normalize_price L text = Inr (Some \<lfloor>numeral_value d * 10000\<rfloor>))
   \<and> (no_match is_numeral unit_man_yen (filter (\<lambda>c. c \<noteq> 44) text)
        \<and> first_match is_digits unit_yen (filter (\<lambda>c. c \<noteq> 44) text) pre' d' \<longrightarrow>
        (length d' \<le> max_str_digits \<longrightarrow> normalize_price L text = Inr (Some (int_of_digits d')))
        \<and> (max_str_digits < length d' \<longrightarrow>
             normalize_price L text = Inl (int_limit_error (length d'))
             \<and> exc_class_of (int_limit_error (length d')) = ValueError))
   \<and> (no_match is_numeral unit_man_yen (filter (\<lambda>c. c \<noteq> 44) text)
        \<and> no_match is_digits unit_yen (filter (\<lambda>c. c \<noteq> 44) text) \<longrightarrow>
        normalize_price L text = Inr None)
   \<and> (no_match is_numeral unit_man_yen (filter (\<lambda>c. c \<noteq> 44) text)
        \<or> (\<exists>p n. first_match is_numeral unit_man_yen (filter (\<lambda>c. c \<noteq> 44) text) p n))
   \<and> (no_match is_digits unit_yen (filter (\<lambda>c. c \<noteq> 44) text)
        \<or> (\<exists>p n. first_match is_digits unit_yen (filter (\<lambda>c. c \<noteq> 44) text) p n))
   \<and> normalize_price L (str ''1,480,000'' @ unit_yen) = Inr (Some 1480000)
   \<and> normalize_price L (str ''98.5'' @ unit_man_yen) = Inr (Some 985000)
   \<and> normalize_price L (str ''no price'') = Inr None"
proof -
  have limit: "exc_class_of (int_limit_error n) = ValueError" for n
    by (simp add: int_limit_error_def)
  show ?thesis
    using normalize_price_man_floor [of "text" pre d x L]
      normalize_price_yen [of "text" pre' d' L] normalize_price_yen_limit [of "text" pre' d' L]
      normalize_price_none [of "text" L]
      exists_first_match [of is_numeral unit_man_yen "filter (\<lambda>c. c \<noteq> 44) text"]
      exists_first_match [of is_digits unit_yen "filter (\<lambda>c. c \<noteq> 44) text"]
      normalize_price_examples [of L] limit [of "length d'"]
    by blast
qed

theorem normalize_price_spec_witness:
  "first_match is_numeral unit_man_yen (filter (\<lambda>c. c \<noteq> 44) (str ''129.8 '' @ unit_man_yen))
     [] (str ''129.8'')
   \<and> float_mul (to_double (numeral_value (str ''129.8''))) (Finite 10000) = Finite 1298000
   \<and> normalize_price ex_lib (str ''129.8 '' @ unit_man_yen) = Inr (Some 1298000)"
proof -
  have c: "\<lfloor>numeral_value (str ''129.8'') * 10000\<rfloor> = \<lfloor>1298000 :: rat\<rfloor>"
    unfolding numeral_value_example by simp
  from normalize_price_spec [of "str ''129.8 '' @ unit_man_yen" "[]" "str ''129.8''" 1298000 ex_lib]
    first_match_example double_product_example c
  have "normalize_price ex_lib (str ''129.8 '' @ unit_man_yen)
        = Inr (Some \<lfloor>numeral_value (str ''129.8'') * 10000\<rfloor>)" by simp
  then show ?thesis using first_match_example double_product_example c by simp
qed

text \<open>
  C4 as stated fails: with a space between the numeral and the marker the program
  returns 985000, and the price as stated is \<open>None\<close>.
\<close>

theorem normalize_price_counterexample:
  "normalize_price ex_lib (str ''98.5 '' @ unit_man_yen) = Inr (Some 985000)
   \<and> stated_price (str ''98.5 '' @ unit_man_yen) = None"
  by (simp add: price_eval double_eval stated_price_def stated_man_rx_def)

text \<open>
  The product is a product of doubles and can fall below the exact product: for the
  numerals 0.0029 and 0.57 the program returns 28 and 5699, where the numeral times
  10000 is 29 and 5700.
\<close>

lemma normalize_price_rounding:
  "normalize_price L (str ''0.0029'' @ unit_man_yen) = Inr (Some 28)
   \<and> stated_price (str ''0.0029'' @ unit_man_yen) = Some 29
   \<and> normalize_price L (str ''0.57'' @ unit_man_yen) = Inr (Some 5699)
   \<and> stated_price (str ''0.57'' @ unit_man_yen) = Some 5700"
  by (simp add: price_eval double_eval stated_price_def stated_man_rx_def numeral_value_def)

section \<open>The sign of the price\<close>

lemma set_dedupe: "l \<in> set (dedupe xs) \<Longrightarrow> l \<in> set xs"
proof -
  assume "l \<in> set (dedupe xs)"
  then obtain k where k: "k \<in> set (first_seen [] (map listing_key xs))"
    and l: "l = last (filter (\<lambda>x. listing_key x = k) xs)"
    unfolding dedupe_eq by auto
  from k have "k \<in> set (map listing_key xs)" by (simp add: set_first_seen)
  then have "filter (\<lambda>x. listing_key x = k) xs \<noteq> []" by (auto simp: filter_empty_conv)
  then have "l \<in> set (filter (\<lambda>x. listing_key x = k) xs)" unfolding l by (rule last_in_set)
  then show ?thesis by simp
qed

lemma direct_price_float:
  assumes "direct_price L price = Inr n"
  shows "\<exists>x. py_float L (py_str L price) = Some (Finite x) \<and> n = (if 0 \<le> x then \<lfloor>x\<rfloor> else \<lceil>x\<rceil>)"
proof -
  from assms obtain f where f: "py_float L (py_str L price) = Some f" and n: "int_of_float f = Inr n"
    by (auto simp: direct_price_def split: option.splits)
  from n show ?thesis unfolding f by (cases f) simp_all
qed

lemma item_price_direct:
  assumes "item_price L price = Inr (Some p)"
  shows "direct_price L price = Inr p
         \<or> (\<exists>e. direct_price L price = Inl e \<and> normalize_price L (py_str L price) = Inr (Some p))"
  using assms unfolding item_price_def by (auto split: sum.splits if_splits)

lemma item_price_sign:
  assumes "item_price L price = Inr (Some p)"
  shows "0 \<le> p \<or> (\<exists>x. py_float L (py_str L price) = Some (Finite x) \<and> x \<le> - 1 \<and> p = \<lceil>x\<rceil>)"
proof (cases "0 \<le> p")
  case True
  then show ?thesis by simp
next
  case False
  from item_price_direct [OF assms] False have "direct_price L price = Inr p"
    by (auto dest: normalize_price_nonneg)
  from direct_price_float [OF this] obtain x where
    x: "py_float L (py_str L price) = Some (Finite x)"
    and p: "p = (if 0 \<le> x then \<lfloor>x\<rfloor> else \<lceil>x\<rceil>)" by blast
  have neg: "\<not> 0 \<le> x" using p False by (auto split: if_splits)
  then have c: "p = \<lceil>x\<rceil>" using p by simp
  have "p \<le> - 1" using False by simp
  then have "\<lceil>x\<rceil> \<le> - 1" unfolding c .
  then have "x \<le> - 1" by (simp add: ceiling_le_iff)
  then show ?thesis using x c by blast
qed

lemma item_price_plain_nonneg:
  assumes "plain_decimal (py_str L price) = Some v" "0 \<le> v" "item_price L price = Inr (Some p)"
  shows "0 \<le> p"
proof -
  have f: "py_float L (py_str L price) = Some (to_double v)"
    using assms(1) by (simp add: py_float_def)
  from to_double_nonneg [OF assms(2)] consider "to_double v = PosInf"
    | r where "to_double v = Finite r" "0 \<le> r" by blast
  then show ?thesis
  proof cases
    case 1
    then have "item_price L price = Inl (PyExc OverflowError (str ''cannot convert float infinity to integer''))"
      using f by (simp add: item_price_def direct_price_def)
    then show ?thesis using assms(3) by simp
  next
    case 2
    then have "item_price L price = Inr (Some \<lfloor>r\<rfloor>)"
      using f by (simp add: item_price_def direct_price_def)
    then show ?thesis using assms(3) 2 by auto
  qed
qed

lemma item_listing_price:
  assumes "item_listing L d t = Inr l" "price_yen l = Some p"
  shows "item_price L (dict_get (item_offers d) (str ''price'') JNull) = Inr (Some p)"
  using assms unfolding item_listing_def
  by (auto simp: Let_def split: sum.splits if_splits)

lemma item_listing_sign:
  "item_listing L d t = Inr l \<Longrightarrow> price_yen l = Some p \<Longrightarrow>
   0 \<le> p \<or> (\<exists>x. py_float L (py_str L (dict_get (item_offers d) (str ''price'') JNull))
                  = Some (Finite x) \<and> x \<le> - 1 \<and> p = \<lceil>x\<rceil>)"
  by (drule (1) item_listing_price) (rule item_price_sign)

lemma fallback_no_price:
  "parse_fallback_html L html = Inr fs \<Longrightarrow> l \<in> set fs \<Longrightarrow> price_yen l = None"
  by (drule parse_fallback_html_result) (auto simp: fallback_listing_def)

lemma parse_json_ld_sign:
  assumes "parse_json_ld L html = Inr ls" "l \<in> set ls" "price_yen l = Some q"
  shows "0 \<le> q \<or> (\<exists>d x. candidate L (blocks (feed L html)) (JDict d)
            \<and> item_listing L d (title l) = Inr l
            \<and> py_float L (py_str L (dict_get (item_offers d) (str ''price'') JNull))
                = Some (Finite x)
            \<and> x \<le> - 1 \<and> q = \<lceil>x\<rceil>)"
proof -
  from parse_json_ld_result [OF assms(1,2)] obtain item where
    c: "candidate L (blocks (feed L html)) item" and p: "process_item L item = Inr (Some l)"
    by blast
  from process_item_Some [OF p] obtain d where d: "item = JDict d"
    and il: "item_listing L d (title l) = Inr l" by blast
  from item_listing_sign [OF il assms(3)] c d il show ?thesis by blast
qed

lemma scrape_sign:
  assumes "scrape L (Inr html) = Inr ls" "l \<in> set ls" "price_yen l = Some q"
  shows "0 \<le> q \<or> (\<exists>d x. candidate L (blocks (feed L html)) (JDict d)
            \<and> item_listing L d (title l) = Inr l
            \<and> py_float L (py_str L (dict_get (item_offers d) (str ''price'') JNull))
                = Some (Finite x)
            \<and> x \<le> - 1 \<and> q = \<lceil>x\<rceil>)"
proof -
  from assms(1) obtain js where js: "parse_json_ld L html = Inr js"
    by (auto simp: scrape_def split: sum.splits)
  show ?thesis
  proof (cases "js = []")
    case True
    then obtain fs where fs: "parse_fallback_html L html = Inr fs" and ls: "ls = dedupe fs"
      using assms(1) js by (auto simp: scrape_def split: sum.splits)
    then have "l \<in> set fs" using assms(2) set_dedupe by blast
    from fallback_no_price [OF fs this] assms(3) show ?thesis by simp
  next
    case False
    then have "ls = dedupe js" using assms(1) js by (auto simp: scrape_def)
    then have "l \<in> set js" using assms(2) set_dedupe by blast
    from parse_json_ld_sign [OF js this assms(3)] show ?thesis .
  qed
qed

lemma py_float_negative: "py_float L (str_int (- 5)) = Some (Finite (- 5))"
  by (simp add: py_float_def plain_decimal_def unsigned_decimal_def str_int_def
      dec_digits.simps str_def is_digit_def int_of_digits_def double_eval)

lemma direct_price_negative: "direct_price L (JInt (- 5)) = Inr (- 5)"
  by (simp add: direct_price_def py_float_negative)

lemma item_price_negative: "item_price L (JInt (- 5)) = Inr (Some (- 5))"
  by (simp add: item_price_def direct_price_negative)

text \<open>The price \<open>"-0.5"\<close> is negative, and its direct parse is 0.\<close>

lemma item_price_half: "item_price L (JStr (str ''-0.5'')) = Inr (Some 0)"
  by (simp add: item_price_def direct_price_def py_float_def plain_decimal_def
      unsigned_decimal_def str_def is_digit_def int_of_digits_def double_eval ceiling_minus)

lemma blocks_page_negative_price:
  "blocks (feed ex_lib page_negative_price) =
     [str ''{\"name\":\"Honda N-VAN\",\"offers\":{\"price\":-5}}'']"
  by (simp add: ex_eval extractor_eval)

lemma parse_page_negative_price:
  "parse_json_ld ex_lib page_negative_price =
     Inr [\<lparr>title = str ''Honda N-VAN'', price_yen = Some (- 5),
           price_label = str ''-5 '' @ unit_yen, location = [],
           image_url = str ''https://www.carsensor.net'',
           detail_url = str ''https://www.carsensor.net'',
           source = str ''carsensor.net''\<rparr>]"
  unfolding parse_json_ld_def blocks_page_negative_price
  by (simp add: ex_lib_def ex_json_loads_def items_of_def process_item_def item_listing_def item_offers_def
      item_price_negative item_price_label_def item_location_def item_image_url_def
      item_detail_url_def dict_get_def py_or_def urljoin_def BASE_URL_def format_commas_def
      dec_digits.simps group_thousands.simps strip_def py_isspace_def unit_yen_def str_def)

text \<open>
  C3, as amended: a price that \<open>normalize_price\<close> returns is not negative. The price
  of a candidate is not negative, unless the text of its price field is a float \<open>x\<close> of
  at most -1: then the price is the direct parse \<open>int(float(str(price)))\<close>, which is \<open>x\<close>
  truncated towards zero. A price field that is a plain decimal numeral of a
  non-negative value never gives a negative price. A listing of the fallback path has
  no price. So for every listing that \<open>scrape\<close> returns, a price that is present is not
  negative, or it is the truncation of the float of at most -1 that the price field of
  the listing's candidate denotes.
\<close>

theorem price_yen_sign:
  "(normalize_price L text = Inr (Some p) \<longrightarrow> 0 \<le> p)
   \<and> (item_price L price = Inr (Some p) \<longrightarrow>
        0 \<le> p \<or> (\<exists>x. py_float L (py_str L price) = Some (Finite x) \<and> x \<le> - 1 \<and> p = \<lceil>x\<rceil>))
   \<and> (plain_decimal (py_str L price) = Some v \<and> 0 \<le> v \<and> item_price L price = Inr (Some p)
        \<longrightarrow> 0 \<le> p)
   \<and> (parse_fallback_html L html = Inr fs \<longrightarrow> (\<forall>l \<in> set fs. price_yen l = None))
   \<and> (scrape L (Inr html) = Inr ls \<longrightarrow>
        (\<forall>l \<in> set ls. \<forall>q. price_yen l = Some q \<longrightarrow>
           0 \<le> q \<or> (\<exists>d x. candidate L (blocks (feed L html)) (JDict d)
                        \<and> item_listing L d (title l) = Inr l
                        \<and> py_float L (py_str L (dict_get (item_offers d) (str ''price'') JNull))
                            = Some (Finite x)
                        \<and> x \<le> - 1 \<and> q = \<lceil>x\<rceil>)))"
  using normalize_price_nonneg [of L "text" p] item_price_sign [of L price p]
    item_price_plain_nonneg [of L price v p]
    fallback_no_price [of L html fs] scrape_sign [of L html ls]
  by blast

theorem price_yen_sign_witness:
  "normalize_price ex_lib (str ''98.5'' @ unit_man_yen) = Inr (Some 985000)
   \<and> (0::int) \<le> 985000
   \<and> item_price ex_lib (JInt (- 5)) = Inr (Some (- 5))
   \<and> (\<exists>x. py_float ex_lib (py_str ex_lib (JInt (- 5))) = Some (Finite x)
          \<and> x \<le> - 1 \<and> (- 5 :: int) = \<lceil>x\<rceil>)
   \<and> item_price ex_lib (JStr (str ''-0.5'')) = Inr (Some 0)"
  using price_yen_sign [where L = ex_lib and ?text = "str ''98.5'' @ unit_man_yen" and p = 985000]
    price_yen_sign [where L = ex_lib and p = "- 5" and price = "JInt (- 5)"]
    normalize_price_examples(2) [of ex_lib] item_price_negative [of ex_lib]
    item_price_half [of ex_lib]
  by simp

text \<open>
  C3 as stated fails: a candidate with the price -5 yields a listing with the price -5.
\<close>

theorem price_yen_negative_counterexample:
  "scrape ex_lib (Inr page_negative_price) =
     Inr [\<lparr>title = str ''Honda N-VAN'', price_yen = Some (- 5),
           price_label = str ''-5 '' @ unit_yen, location = [],
           image_url = str ''https://www.carsensor.net'',
           detail_url = str ''https://www.carsensor.net'',
           source = str ''carsensor.net''\<rparr>]"
  by (simp add: scrape_def parse_page_negative_price dedupe_def listing_key_def str_def)

section \<open>Exceptions of the structured path\<close>

lemma blocks_loop_skips:
  "json_loads L raw = Inl e \<Longrightarrow> exc_class_of e = JSONDecodeError \<Longrightarrow>
   blocks_loop L (raw # raws) acc = blocks_loop L raws acc"
  by simp

lemma process_item_not_dict: "\<not> is_dict item \<Longrightarrow> process_item L item = Inl (no_attribute_get item)"
  by (cases item) (simp_all add: process_item_def)

lemma item_price_infinite:
  "py_float L (py_str L price) = Some PosInf \<Longrightarrow>
   item_price L price = Inl (PyExc OverflowError (str ''cannot convert float infinity to integer''))"
  by (simp add: item_price_def direct_price_def)

lemma to_double_huge: "to_double (10 ^ 309) = PosInf"
  by (simp add: double_eval)

lemma dec_digits_power: "dec_digits (10 ^ Suc n) = dec_digits (10 ^ n) @ [48]"
  by (subst dec_digits.simps) (simp add: not_less)

lemma dec_digits_power_eq: "dec_digits (10 ^ n) = 49 # replicate n 48"
  by (induction n) (simp_all add: dec_digits_power dec_digits.simps replicate_append_same)

lemma int_of_digits_power: "int_of_digits (49 # replicate n 48) = 10 ^ n"
proof -
  have "foldl (\<lambda>a c. 10 * a + int (c - 48)) a (replicate n 48) = a * 10 ^ n" for a
    by (induction n arbitrary: a) simp_all
  then show ?thesis by (simp add: int_of_digits_def)
qed

lemma plain_decimal_power: "plain_decimal (49 # replicate n 48) = Some (10 ^ n)"
proof -
  have d: "list_all is_digit (49 # replicate n 48)" by (simp add: is_digit_def list_all_iff)
  then have "takeWhile is_digit (49 # replicate n 48) = 49 # replicate n 48"
    "dropWhile is_digit (49 # replicate n 48) = []"
    using takeWhile_all [of is_digit "49 # replicate n 48"] by auto
  then have "unsigned_decimal (49 # replicate n 48) = Some (10 ^ n)"
    unfolding unsigned_decimal_def Let_def using int_of_digits_power [of n] by simp
  then show ?thesis by (simp add: plain_decimal_def)
qed

lemma item_price_huge:
  "item_price L (JInt (10 ^ 309)) =
     Inl (PyExc OverflowError (str ''cannot convert float infinity to integer''))"
proof -
  have "py_str L (JInt (10 ^ 309)) = 49 # replicate 309 48"
    using dec_digits_power_eq [of 309] by (simp add: str_int_def nat_power_eq)
  then have "py_float L (py_str L (JInt (10 ^ 309))) = Some PosInf"
    using plain_decimal_power [of 309] to_double_huge by (simp add: py_float_def)
  then show ?thesis by (rule item_price_infinite)
qed

text \<open>
  C1 fails on the page whose block is \<^verbatim>\<open>{"itemListElement":[{"item":"x"}]}\<close>: the
  element is a \<open>dict\<close>, its \<open>item\<close> is a \<open>str\<close>, and \<open>item.get\<close> raises
  \<open>AttributeError\<close>, which \<open>parse_json_ld\<close> and \<open>scrape\<close> do not catch.
\<close>

theorem parse_json_ld_raises:
  "parse_json_ld ex_lib page_item_text = Inl (no_attribute_get (JStr (str ''x'')))
   \<and> exc_class_of (no_attribute_get (JStr (str ''x''))) = AttributeError
   \<and> scrape ex_lib (Inr page_item_text) = Inl (no_attribute_get (JStr (str ''x'')))"
  by (simp add: scrape_def parse_page_item_text) (simp add: no_attribute_get_def)

end
